theory Spec2Isabelle
  imports Main "HOL-Library.Multiset"
begin

section \<open>Python values\<close>

text \<open>
  The tools exchange dynamically typed values: JSON arguments coming from the model and
  dictionaries going back. A Python \<open>str\<close> is a \<open>string\<close> whose characters stand for the
  code points 0 to 255; a \<open>dict\<close> is an association list in insertion order, read with
  \<open>map_of\<close>. Floating point numbers are left out.
\<close>

datatype pyval =
    PNone
  | PBool bool
  | PInt int
  | PStr string
  | PList "pyval list"
  | PDict "(string \<times> pyval) list"

text \<open>\<open>d.get(k)\<close> and \<open>d.get(k, default)\<close> on a dictionary.\<close>

definition dict_get :: "(string \<times> pyval) list \<Rightarrow> string \<Rightarrow> pyval" where
  "dict_get d k = (case map_of d k of None \<Rightarrow> PNone | Some v \<Rightarrow> v)"

definition dict_get_default :: "(string \<times> pyval) list \<Rightarrow> string \<Rightarrow> pyval \<Rightarrow> pyval" where
  "dict_get_default d k dflt = (case map_of d k of None \<Rightarrow> dflt | Some v \<Rightarrow> v)"

text \<open>
  Exceptions. A \<open>TypeError\<close> carries what the call machinery complained about.
  \<open>Unmodelled\<close> is not a Python exception: it marks a run that hands the database or the
  formatter a value whose behaviour the sources under study do not determine (an argument
  whose type differs from the column's).
\<close>

datatype type_error =
    NotAMapping
  | MultipleValues string
  | UnexpectedKeyword string
  | MissingArgument string

datatype error =
    TypeError type_error
  | ValueError
  | IndexError
  | AttributeError
  | ApiError
  | Unmodelled

section \<open>The task table (models/task.py)\<close>

record task =
  id' :: int
  user_id :: string
  title :: string
  description :: "string option"
  completed :: bool
  created_at :: int
  updated_at :: int

text \<open>
  The session: the rows of the table in storage order, the next primary key the database
  hands out, and the number of clock readings made so far. \<open>datetime.utcnow\<close> is the
  clock \<open>clk\<close>, a function from the number of earlier readings to the time read.
\<close>

record store =
  tasks :: "task list"
  next_id :: int
  tick :: nat

definition utcnow :: "(nat \<Rightarrow> int) \<Rightarrow> store \<Rightarrow> int \<times> store" where
  "utcnow clk s = (clk (tick s), s\<lparr>tick := Suc (tick s)\<rparr>)"

text \<open>The primary key is unique and below the next key to be handed out.\<close>

definition wf_store :: "store \<Rightarrow> bool" where
  "wf_store s \<longleftrightarrow> distinct (map id' (tasks s)) \<and> list_all (\<lambda>t. id' t < next_id s) (tasks s)"

text \<open>\<open>select(Task).where(Task.id == task_id, Task.user_id == user_id).first()\<close>\<close>

definition first_task :: "store \<Rightarrow> string \<Rightarrow> int \<Rightarrow> task option" where
  "first_task s uid tid = find (\<lambda>t. id' t = tid \<and> user_id t = uid) (tasks s)"

text \<open>\<open>session.add(task); session.commit()\<close> of a loaded row writes it back under its key.\<close>

definition commit_task :: "store \<Rightarrow> task \<Rightarrow> store" where
  "commit_task s t = s\<lparr>tasks := map (\<lambda>r. if id' r = id' t then t else r) (tasks s)\<rparr>"

text \<open>\<open>session.delete(task); session.commit()\<close>\<close>

definition delete_row :: "store \<Rightarrow> task \<Rightarrow> store" where
  "delete_row s t = s\<lparr>tasks := filter (\<lambda>r. id' r \<noteq> id' t) (tasks s)\<rparr>"

section \<open>The tools (mcp/tools.py)\<close>

definition not_found :: "int \<Rightarrow> pyval" where
  "not_found tid =
     PDict [(''task_id'', PInt tid), (''status'', PStr ''error''), (''error'', PStr ''Task not found'')]"

definition add_task :: "(nat \<Rightarrow> int) \<Rightarrow> store \<Rightarrow> string \<Rightarrow> string \<Rightarrow> string option \<Rightarrow> pyval \<times> store" where
  "add_task clk s uid ttl descr =
     (let (c, s1) = utcnow clk s;
          (u, s2) = utcnow clk s1;
          t = \<lparr>id' = next_id s2, user_id = uid, title = ttl, description = descr,
               completed = False, created_at = c, updated_at = u\<rparr>;
          s3 = s2\<lparr>tasks := tasks s2 @ [t], next_id := next_id s2 + 1\<rparr>
      in (PDict [(''task_id'', PInt (id' t)), (''status'', PStr ''created''), (''title'', PStr (title t))],
          s3))"

text \<open>
  The rows \<open>list_tasks\<close> selects: the owner's, filtered by status, newest first. Rows
  created at the same instant keep their storage order.
\<close>

definition select_tasks :: "store \<Rightarrow> string \<Rightarrow> pyval \<Rightarrow> task list" where
  "select_tasks s uid status =
     (let q = filter (\<lambda>t. user_id t = uid) (tasks s);
          q' = (if status = PStr ''pending'' then filter (\<lambda>t. completed t = False) q
                else if status = PStr ''completed'' then filter (\<lambda>t. completed t = True) q
                else q)
      in sort_key (\<lambda>t. - created_at t) q')"

definition task_summary :: "(int \<Rightarrow> string) \<Rightarrow> task \<Rightarrow> pyval" where
  "task_summary isofmt t =
     PDict [(''id'', PInt (id' t)),
            (''title'', PStr (title t)),
            (''description'', (case description t of None \<Rightarrow> PNone | Some d \<Rightarrow> PStr d)),
            (''completed'', PBool (completed t)),
            (''created_at'', PStr (isofmt (created_at t)))]"

definition list_tasks :: "(int \<Rightarrow> string) \<Rightarrow> store \<Rightarrow> string \<Rightarrow> pyval \<Rightarrow> pyval" where
  "list_tasks isofmt s uid status = PList (map (task_summary isofmt) (select_tasks s uid status))"

definition complete_task :: "(nat \<Rightarrow> int) \<Rightarrow> store \<Rightarrow> string \<Rightarrow> int \<Rightarrow> pyval \<times> store" where
  "complete_task clk s uid tid =
     (case first_task s uid tid of
        None \<Rightarrow> (not_found tid, s)
      | Some t \<Rightarrow>
          (let (u, s1) = utcnow clk s;
               t' = t\<lparr>completed := True, updated_at := u\<rparr>
           in (PDict [(''task_id'', PInt (id' t')), (''status'', PStr ''completed''),
                      (''title'', PStr (title t'))],
               commit_task s1 t')))"

definition delete_task :: "store \<Rightarrow> string \<Rightarrow> int \<Rightarrow> pyval \<times> store" where
  "delete_task s uid tid =
     (case first_task s uid tid of
        None \<Rightarrow> (not_found tid, s)
      | Some t \<Rightarrow>
          (PDict [(''task_id'', PInt tid), (''status'', PStr ''deleted''), (''title'', PStr (title t))],
           delete_row s t))"

definition update_task ::
  "(nat \<Rightarrow> int) \<Rightarrow> store \<Rightarrow> string \<Rightarrow> int \<Rightarrow> string option \<Rightarrow> string option \<Rightarrow> pyval \<times> store" where
  "update_task clk s uid tid ttl descr =
     (case first_task s uid tid of
        None \<Rightarrow> (not_found tid, s)
      | Some t \<Rightarrow>
          (let t1 = (case ttl of None \<Rightarrow> t | Some x \<Rightarrow> t\<lparr>title := x\<rparr>);
               t2 = (case descr of None \<Rightarrow> t1 | Some d \<Rightarrow> t1\<lparr>description := Some d\<rparr>);
               (u, s1) = utcnow clk s;
               t3 = t2\<lparr>updated_at := u\<rparr>
           in (PDict [(''task_id'', PInt (id' t3)), (''status'', PStr ''updated''),
                      (''title'', PStr (title t3))],
               commit_task s1 t3)))"

section \<open>Dispatch by name (mcp/tools.py)\<close>

text \<open>
  \<open>tools[tool_name](session=session, user_id=user_id, **arguments)\<close>: Python first merges
  the keywords (a value that is no mapping, or a key given twice, is a \<open>TypeError\<close>), then
  binds them to the parameters (an unknown keyword, then a missing required parameter, is a
  \<open>TypeError\<close>). \<open>params\<close> are the tool's parameters besides \<open>session\<close> and
  \<open>user_id\<close>, \<open>required\<close> those of them without a default.
\<close>

definition bind_kwargs :: "string list \<Rightarrow> string list \<Rightarrow> pyval \<Rightarrow> error + (string \<times> pyval) list" where
  "bind_kwargs params required arguments =
     (case arguments of
        PDict kw \<Rightarrow>
          (case find (\<lambda>k. k = ''session'' \<or> k = ''user_id'') (map fst kw) of
             Some k \<Rightarrow> Inl (TypeError (MultipleValues k))
           | None \<Rightarrow>
               (case find (\<lambda>k. k \<notin> set params) (map fst kw) of
                  Some k \<Rightarrow> Inl (TypeError (UnexpectedKeyword k))
                | None \<Rightarrow>
                    (case find (\<lambda>p. p \<notin> set (map fst kw)) required of
                       Some p \<Rightarrow> Inl (TypeError (MissingArgument p))
                     | None \<Rightarrow> Inr kw)))
      | _ \<Rightarrow> Inl (TypeError NotAMapping))"

text \<open>
  The values a tool hands to the database. One of the annotated type goes through; what the
  database does with another one is not modelled.
\<close>

fun as_str :: "pyval option \<Rightarrow> error + string" where
  "as_str (Some (PStr x)) = Inr x"
| "as_str None = Inl (TypeError (MissingArgument ''title''))"
| "as_str _ = Inl Unmodelled"

fun as_int :: "pyval option \<Rightarrow> error + int" where
  "as_int (Some (PInt i)) = Inr i"
| "as_int None = Inl (TypeError (MissingArgument ''task_id''))"
| "as_int _ = Inl Unmodelled"

fun as_opt_str :: "pyval option \<Rightarrow> error + string option" where
  "as_opt_str None = Inr None"
| "as_opt_str (Some PNone) = Inr None"
| "as_opt_str (Some (PStr x)) = Inr (Some x)"
| "as_opt_str _ = Inl Unmodelled"

definition tool_names :: "string list" where
  "tool_names = [''add_task'', ''list_tasks'', ''complete_task'', ''delete_task'', ''update_task'']"

definition execute_tool ::
  "(nat \<Rightarrow> int) \<Rightarrow> (int \<Rightarrow> string) \<Rightarrow> store \<Rightarrow> string \<Rightarrow> string \<Rightarrow> pyval \<Rightarrow> (error + pyval) \<times> store" where
  "execute_tool clk isofmt s uid tool_name arguments =
     (if tool_name \<notin> set tool_names then
        (Inr (PDict [(''error'', PStr (''Unknown tool: '' @ tool_name))]), s)
      else if tool_name = ''add_task'' then
        (case bind_kwargs [''title'', ''description''] [''title''] arguments of
           Inl e \<Rightarrow> (Inl e, s)
         | Inr kw \<Rightarrow>
             (case as_str (map_of kw ''title'') of
                Inl e \<Rightarrow> (Inl e, s)
              | Inr ttl \<Rightarrow>
                  (case as_opt_str (map_of kw ''description'') of
                     Inl e \<Rightarrow> (Inl e, s)
                   | Inr descr \<Rightarrow>
                       (let (r, s') = add_task clk s uid ttl descr in (Inr r, s')))))
      else if tool_name = ''list_tasks'' then
        (case bind_kwargs [''status''] [] arguments of
           Inl e \<Rightarrow> (Inl e, s)
         | Inr kw \<Rightarrow>
             (Inr (list_tasks isofmt s uid
                     (case map_of kw ''status'' of None \<Rightarrow> PStr ''all'' | Some v \<Rightarrow> v)), s))
      else if tool_name = ''complete_task'' then
        (case bind_kwargs [''task_id''] [''task_id''] arguments of
           Inl e \<Rightarrow> (Inl e, s)
         | Inr kw \<Rightarrow>
             (case as_int (map_of kw ''task_id'') of
                Inl e \<Rightarrow> (Inl e, s)
              | Inr tid \<Rightarrow> (let (r, s') = complete_task clk s uid tid in (Inr r, s'))))
      else if tool_name = ''delete_task'' then
        (case bind_kwargs [''task_id''] [''task_id''] arguments of
           Inl e \<Rightarrow> (Inl e, s)
         | Inr kw \<Rightarrow>
             (case as_int (map_of kw ''task_id'') of
                Inl e \<Rightarrow> (Inl e, s)
              | Inr tid \<Rightarrow> (let (r, s') = delete_task s uid tid in (Inr r, s'))))
      else
        (case bind_kwargs [''task_id'', ''title'', ''description''] [''task_id''] arguments of
           Inl e \<Rightarrow> (Inl e, s)
         | Inr kw \<Rightarrow>
             (case as_int (map_of kw ''task_id'') of
                Inl e \<Rightarrow> (Inl e, s)
              | Inr tid \<Rightarrow>
                  (case as_opt_str (map_of kw ''title'') of
                     Inl e \<Rightarrow> (Inl e, s)
                   | Inr ttl \<Rightarrow>
                       (case as_opt_str (map_of kw ''description'') of
                          Inl e \<Rightarrow> (Inl e, s)
                        | Inr descr \<Rightarrow>
                            (let (r, s') = update_task clk s uid tid ttl descr in (Inr r, s')))))))"

section \<open>Strings\<close>

text \<open>The characters \<open>str.strip\<close> removes: those \<open>str.isspace\<close> accepts, below 256.\<close>

definition isspace :: "char \<Rightarrow> bool" where
  "isspace c \<longleftrightarrow>
     c \<in> set [CHR 0x09, CHR 0x0A, CHR 0x0B, CHR 0x0C, CHR 0x0D, CHR 0x1C, CHR 0x1D, CHR 0x1E,
               CHR 0x1F, CHR 0x20, CHR 0x85, CHR 0xA0]"

definition strip :: "string \<Rightarrow> string" where
  "strip s = rev (dropWhile isspace (rev (dropWhile isspace s)))"

definition strip_wrapping_quotes :: "string \<Rightarrow> string" where
  "strip_wrapping_quotes v0 =
     (let v = strip v0
      in if length v \<ge> 2 \<and> hd v = last v \<and> (hd v = CHR 0x27 \<or> hd v = CHR 0x22)
         then strip (butlast (tl v))
         else v)"

text \<open>\<open>str.lower\<close> on the code points below 256.\<close>

definition lower_char :: "char \<Rightarrow> char" where
  "lower_char c =
     (let n = (of_char c :: nat)
      in if (65 \<le> n \<and> n \<le> 90) \<or> (192 \<le> n \<and> n \<le> 222 \<and> n \<noteq> 215) then char_of (n + 32) else c)"

definition lower :: "string \<Rightarrow> string" where
  "lower s = map lower_char s"

text \<open>\<open>needle in hay\<close> on strings.\<close>

fun contains :: "string \<Rightarrow> string \<Rightarrow> bool" where
  "contains needle [] = (needle = [])"
| "contains needle (c # cs) = (take (length needle) (c # cs) = needle \<or> contains needle cs)"

text \<open>\<open>sep.join(lines)\<close>\<close>

fun join :: "string \<Rightarrow> string list \<Rightarrow> string" where
  "join sep [] = []"
| "join sep [x] = x"
| "join sep (x # y # ys) = x @ sep @ join sep (y # ys)"

text \<open>\<open>str(n)\<close> of an integer, as an f-string renders it.\<close>

fun str_nat :: "nat \<Rightarrow> string" where
  "str_nat n = (if n < 10 then [''0123456789'' ! n] else str_nat (n div 10) @ [''0123456789'' ! (n mod 10)])"

definition str_int :: "int \<Rightarrow> string" where
  "str_int i = (if i < 0 then ''-'' @ str_nat (nat (- i)) else str_nat (nat i))"

text \<open>What an f-string puts for a value; the \<open>repr\<close> of containers is not modelled.\<close>

fun py_str :: "pyval \<Rightarrow> error + string" where
  "py_str PNone = Inr ''None''"
| "py_str (PBool b) = Inr (if b then ''True'' else ''False'')"
| "py_str (PInt i) = Inr (str_int i)"
| "py_str (PStr x) = Inr x"
| "py_str (PList xs) = Inl Unmodelled"
| "py_str (PDict d) = Inl Unmodelled"

text \<open>Truth value of an object.\<close>

fun truthy :: "pyval \<Rightarrow> bool" where
  "truthy PNone = False"
| "truthy (PBool b) = b"
| "truthy (PInt i) = (i \<noteq> 0)"
| "truthy (PStr x) = (x \<noteq> [])"
| "truthy (PList xs) = (xs \<noteq> [])"
| "truthy (PDict d) = (d \<noteq> [])"

section \<open>The agent: data and collaborators\<close>

text \<open>A stored chat message (models/message.py), as far as the agent reads it.\<close>

record message =
  role :: string
  content :: string

text \<open>
  What the model answers: \<open>assistant_message.content\<close> and
  \<open>assistant_message.tool_calls\<close>, each call with \<open>id\<close>, \<open>function.name\<close> and
  \<open>function.arguments\<close> (the raw JSON text). An absent list of calls is the empty list.
\<close>

datatype tool_call = ToolCall (tc_id: string) (tc_name: string) (tc_arguments: string)

datatype assistant_message =
  AssistantMessage (am_content: "string option") (am_tool_calls: "tool_call list")

text \<open>
  What a run does to the outside, in order: a request to the model (with the round and the
  messages sent) and a return of \<open>execute_tool\<close> (with name, arguments and result). The
  trace is instrumentation of the model, not a variable of the source.
\<close>

datatype event =
    Consulted nat "pyval list"
  | Executed string pyval pyval

record world =
  db :: store
  trace :: "event list"

text \<open>
  The library functions the agent calls, as parameters: the clock and \<open>isoformat\<close> of
  \<open>datetime\<close>, \<open>json.loads\<close> (\<open>None\<close> for a \<open>JSONDecodeError\<close>) and \<open>json.dumps\<close>,
  \<open>int\<close> on a string, \<open>re.match\<close> and \<open>re.search\<close> (pattern, whether
  \<open>re.IGNORECASE\<close> is set, subject; the groups 1, 2, ... of a match), and
  \<open>client.chat.completions.create\<close> (the round and the messages; \<open>Inl\<close> when it raises).
\<close>

record lib =
  clock :: "nat \<Rightarrow> int"
  isoformat :: "int \<Rightarrow> string"
  json_loads :: "string \<Rightarrow> pyval option"
  json_dumps :: "pyval \<Rightarrow> string"
  int_of_str :: "string \<Rightarrow> error + int"
  re_match :: "string \<Rightarrow> bool \<Rightarrow> string \<Rightarrow> string list option"
  re_search :: "string \<Rightarrow> bool \<Rightarrow> string \<Rightarrow> string list option"
  create :: "nat \<Rightarrow> pyval list \<Rightarrow> error + assistant_message"

definition MAX_CONTEXT_MESSAGES :: nat where
  "MAX_CONTEXT_MESSAGES = 12"

definition MAX_TOOL_ITERATIONS :: nat where
  "MAX_TOOL_ITERATIONS = 4"

definition SYSTEM_PROMPT :: string where
  "SYSTEM_PROMPT =
     ''You manage todo tasks with tools.\<newline>'' @
     ''Use tools for add/list/complete/delete/update actions.\<newline>'' @
     ''Be concise and friendly.\<newline>'' @
     ''If the user is ambiguous, ask a clarifying question.\<newline>'' @
     ''If a task is not found, say so clearly.''"

definition and_then :: "error + 'a \<Rightarrow> ('a \<Rightarrow> error + 'b) \<Rightarrow> error + 'b" where
  "and_then m f = (case m of Inl e \<Rightarrow> Inl e | Inr x \<Rightarrow> f x)"

fun map_err :: "('a \<Rightarrow> error + 'b) \<Rightarrow> 'a list \<Rightarrow> error + 'b list" where
  "map_err f [] = Inr []"
| "map_err f (x # xs) = and_then (f x) (\<lambda>y. and_then (map_err f xs) (\<lambda>ys. Inr (y # ys)))"

text \<open>\<open>execute_tool\<close> as the agent calls it, recorded in the trace when it returns.\<close>

definition call_execute_tool :: "lib \<Rightarrow> world \<Rightarrow> string \<Rightarrow> string \<Rightarrow> pyval \<Rightarrow> (error + pyval) \<times> world" where
  "call_execute_tool L w uid tool_name arguments =
     (case execute_tool (clock L) (isoformat L) (db w) uid tool_name arguments of
        (Inl e, s') \<Rightarrow> (Inl e, w\<lparr>db := s'\<rparr>)
      | (Inr result, s') \<Rightarrow>
          (Inr result, w\<lparr>db := s', trace := trace w @ [Executed tool_name arguments result]\<rparr>))"

definition audit_entry :: "string \<Rightarrow> pyval \<Rightarrow> pyval \<Rightarrow> pyval" where
  "audit_entry tool_name arguments result =
     PDict [(''name'', PStr tool_name), (''arguments'', arguments), (''result'', result)]"

section \<open>The agent loop (agent/todo_agent.py)\<close>

definition recent_openai_messages :: "message list \<Rightarrow> pyval list" where
  "recent_openai_messages messages =
     (let recent = drop (length messages - MAX_CONTEXT_MESSAGES) messages
      in PDict [(''role'', PStr ''system''), (''content'', PStr SYSTEM_PROMPT)] #
         map (\<lambda>msg. PDict [(''role'', PStr (role msg)), (''content'', PStr (content msg))]) recent)"

definition assistant_turn :: "assistant_message \<Rightarrow> pyval" where
  "assistant_turn am =
     PDict [(''role'', PStr ''assistant''),
            (''content'', (case am_content am of None \<Rightarrow> PNone | Some c \<Rightarrow> PStr c)),
            (''tool_calls'',
             PList (map (\<lambda>tc. PDict [(''id'', PStr (tc_id tc)),
                                      (''type'', PStr ''function''),
                                      (''function'', PDict [(''name'', PStr (tc_name tc)),
                                                            (''arguments'', PStr (tc_arguments tc))])])
                        (am_tool_calls am)))]"

text \<open>The inner loop: the calls of one answer, in the order the model listed them.\<close>

fun execute_calls ::
  "lib \<Rightarrow> string \<Rightarrow> tool_call list \<Rightarrow> pyval list \<Rightarrow> pyval list \<Rightarrow> world
     \<Rightarrow> (error + pyval list \<times> pyval list) \<times> world" where
  "execute_calls L uid [] openai_messages tool_calls_made w = (Inr (openai_messages, tool_calls_made), w)"
| "execute_calls L uid (tc # tcs) openai_messages tool_calls_made w =
     (let tool_name = tc_name tc;
          arguments = (case json_loads L (tc_arguments tc) of None \<Rightarrow> PDict [] | Some a \<Rightarrow> a)
      in case call_execute_tool L w uid tool_name arguments of
           (Inl e, w') \<Rightarrow> (Inl e, w')
         | (Inr result, w') \<Rightarrow>
             execute_calls L uid tcs
               (openai_messages @
                  [PDict [(''role'', PStr ''tool''), (''tool_call_id'', PStr (tc_id tc)),
                          (''content'', PStr (json_dumps L result))]])
               (tool_calls_made @ [audit_entry tool_name arguments result])
               w')"

text \<open>
  The outer loop, \<open>for _ in range(MAX_TOOL_ITERATIONS)\<close>: \<open>i\<close> rounds are done,
  \<open>n\<close> are left.
\<close>

fun agent_loop ::
  "lib \<Rightarrow> string \<Rightarrow> nat \<Rightarrow> nat \<Rightarrow> pyval list \<Rightarrow> pyval list \<Rightarrow> world
     \<Rightarrow> (error + string \<times> pyval list) \<times> world" where
  "agent_loop L uid i 0 openai_messages tool_calls_made w =
     (Inr (''I've completed the requested operations. Is there anything else you'd like me to do?'',
           tool_calls_made), w)"
| "agent_loop L uid i (Suc n) openai_messages tool_calls_made w =
     (let w1 = w\<lparr>trace := trace w @ [Consulted i openai_messages]\<rparr>
      in case create L i openai_messages of
           Inl e \<Rightarrow> (Inl e, w1)
         | Inr am \<Rightarrow>
             if am_tool_calls am = [] then
               (Inr (case am_content am of
                       None \<Rightarrow> ''I'm not sure how to help with that.''
                     | Some c \<Rightarrow> if c = [] then ''I'm not sure how to help with that.'' else c,
                     tool_calls_made), w1)
             else
               (case execute_calls L uid (am_tool_calls am)
                       (openai_messages @ [assistant_turn am]) tool_calls_made w1 of
                  (Inl e, w2) \<Rightarrow> (Inl e, w2)
                | (Inr (msgs, made), w2) \<Rightarrow> agent_loop L uid (Suc i) n msgs made w2))"

section \<open>The fast path (agent/todo_agent.py)\<close>

subsection \<open>The response sentences of run_tool\<close>

text \<open>\<open>obj.get(k)\<close> and \<open>obj.get(k, default)\<close>: only a dictionary has the method.\<close>

definition get_of :: "pyval \<Rightarrow> string \<Rightarrow> error + pyval" where
  "get_of obj k = (case obj of PDict d \<Rightarrow> Inr (dict_get d k) | _ \<Rightarrow> Inl AttributeError)"

definition get_default_of :: "pyval \<Rightarrow> string \<Rightarrow> pyval \<Rightarrow> error + pyval" where
  "get_default_of obj k dflt =
     (case obj of PDict d \<Rightarrow> Inr (dict_get_default d k dflt) | _ \<Rightarrow> Inl AttributeError)"

definition add_response :: "(string \<times> pyval) list \<Rightarrow> pyval \<Rightarrow> error + string" where
  "add_response arguments result =
     and_then (get_default_of result ''title'' (dict_get_default arguments ''title'' (PStr ''Untitled'')))
       (\<lambda>t. and_then (py_str t) (\<lambda>ts. Inr (''Added task: '' @ ts @ ''.'')))"

definition task_line :: "pyval \<Rightarrow> error + string" where
  "task_line item =
     and_then (get_of item ''completed'') (\<lambda>c.
     and_then (get_of item ''id'') (\<lambda>i.
     and_then (py_str i) (\<lambda>is.
     and_then (get_of item ''title'') (\<lambda>t.
     and_then (py_str t) (\<lambda>ts.
       Inr ((if truthy c then ''Done'' else ''Todo'') @ '' #'' @ is @ '': '' @ ts))))))"

definition list_response :: "pyval \<Rightarrow> error + string" where
  "list_response result =
     (let items = (case result of PList xs \<Rightarrow> xs | _ \<Rightarrow> [])
      in if items = [] then Inr ''You don't have any matching tasks yet.''
         else and_then (map_err task_line (take 10 items)) (\<lambda>lines.
                Inr (''Here are your tasks:\<newline>'' @
                     join ''\<newline>''
                       (if length items > 10
                        then lines @ [''...and '' @ str_int (int (length items) - 10) @ '' more.'']
                        else lines))))"

text \<open>
  The sentences for complete, delete and update differ in two words only:
  \<open>f"{verb} task #{result.get('task_id')}: {result.get('title')}." if
  result.get("status") == status else result.get("error", "Task not found.")\<close>.
\<close>

definition outcome_response :: "string \<Rightarrow> string \<Rightarrow> pyval \<Rightarrow> error + string" where
  "outcome_response verb status result =
     and_then (get_of result ''status'') (\<lambda>st.
       if st = PStr status then
         and_then (get_of result ''task_id'') (\<lambda>i.
         and_then (py_str i) (\<lambda>is.
         and_then (get_of result ''title'') (\<lambda>t.
         and_then (py_str t) (\<lambda>ts.
           Inr (verb @ '' task #'' @ is @ '': '' @ ts @ ''.'')))))
       else
         and_then (get_default_of result ''error'' (PStr ''Task not found.''))
           (\<lambda>e. case e of PStr x \<Rightarrow> Inr x | _ \<Rightarrow> Inl Unmodelled))"

definition run_tool ::
  "lib \<Rightarrow> world \<Rightarrow> string \<Rightarrow> string \<Rightarrow> (string \<times> pyval) list \<Rightarrow> string option
     \<Rightarrow> (error + string \<times> pyval list) \<times> world" where
  "run_tool L w uid tool_name arguments response_text =
     (case call_execute_tool L w uid tool_name (PDict arguments) of
        (Inl e, w') \<Rightarrow> (Inl e, w')
      | (Inr result, w') \<Rightarrow>
          (case (case response_text of
                   Some t \<Rightarrow> Inr t
                 | None \<Rightarrow>
                     if tool_name = ''add_task'' then add_response arguments result
                     else if tool_name = ''list_tasks'' then list_response result
                     else if tool_name = ''complete_task'' then outcome_response ''Completed'' ''completed'' result
                     else if tool_name = ''delete_task'' then outcome_response ''Deleted'' ''deleted'' result
                     else if tool_name = ''update_task'' then outcome_response ''Updated'' ''updated'' result
                     else Inr ''Done.'') of
             Inl e \<Rightarrow> (Inl e, w')
           | Inr sentence \<Rightarrow>
               (Inr (sentence, [audit_entry tool_name (PDict arguments) result]), w')))"

subsection \<open>The matcher\<close>

definition bs :: string where
  "bs = [CHR 0x5C]"

definition pat_add :: string where
  "pat_add = ''^(?:add|create)'' @ bs @ ''s+(?:a'' @ bs @ ''s+)?task(?:'' @ bs @ ''s+to)?'' @ bs @ ''s+(.+)$''"

definition pat_remember :: string where
  "pat_remember = ''^remember'' @ bs @ ''s+to'' @ bs @ ''s+(.+)$''"

definition pat_complete :: string where
  "pat_complete =
     ''(?:complete|finish|mark)'' @ bs @ ''s+task'' @ bs @ ''s+('' @ bs @ ''d+)(?:'' @ bs @ ''s+as'' @ bs @
     ''s+(?:done|complete))?''"

definition pat_delete :: string where
  "pat_delete = ''(?:delete|remove)'' @ bs @ ''s+task'' @ bs @ ''s+('' @ bs @ ''d+)''"

definition pat_update :: string where
  "pat_update =
     ''(?:change|update|rename)'' @ bs @ ''s+task'' @ bs @ ''s+('' @ bs @ ''d+)'' @ bs @ ''s+(?:to|as)'' @ bs @
     ''s+(.+)$''"

text \<open>\<open>m.group(i)\<close> on the groups of a match.\<close>

definition match_group :: "string list \<Rightarrow> nat \<Rightarrow> error + string" where
  "match_group m i = (if 1 \<le> i \<and> i \<le> length m then Inr (m ! (i - 1)) else Inl IndexError)"

text \<open>A \<open>return run_tool(...)\<close> of the matcher: the pair it returns is not \<open>None\<close>.\<close>

definition returned ::
  "(error + string \<times> pyval list) \<times> world \<Rightarrow> (error + (string \<times> pyval list) option) \<times> world" where
  "returned r = (case r of (Inl e, w') \<Rightarrow> (Inl e, w') | (Inr x, w') \<Rightarrow> (Inr (Some x), w'))"

text \<open>The sections of the matcher, last first; each falls through to the next.\<close>

definition fp_update :: "lib \<Rightarrow> world \<Rightarrow> string \<Rightarrow> string \<Rightarrow> (error + (string \<times> pyval list) option) \<times> world" where
  "fp_update L w uid utterance =
     (case re_search L pat_update True utterance of
        None \<Rightarrow> (Inr None, w)
      | Some m \<Rightarrow>
          (case and_then (match_group m 1) (int_of_str L) of
             Inl e \<Rightarrow> (Inl e, w)
           | Inr task_id \<Rightarrow>
               (case match_group m 2 of
                  Inl e \<Rightarrow> (Inl e, w)
                | Inr g \<Rightarrow>
                    (let ttl = strip_wrapping_quotes g
                     in if ttl \<noteq> [] then
                          returned (run_tool L w uid ''update_task''
                                      [(''task_id'', PInt task_id), (''title'', PStr ttl)] None)
                        else (Inr None, w)))))"

definition fp_delete ::
  "lib \<Rightarrow> world \<Rightarrow> string \<Rightarrow> string \<Rightarrow> string \<Rightarrow> (error + (string \<times> pyval list) option) \<times> world" where
  "fp_delete L w uid utterance lowered =
     (case re_search L pat_delete False lowered of
        Some m \<Rightarrow>
          (case and_then (match_group m 1) (int_of_str L) of
             Inl e \<Rightarrow> (Inl e, w)
           | Inr task_id \<Rightarrow>
               returned (run_tool L w uid ''delete_task'' [(''task_id'', PInt task_id)] None))
      | None \<Rightarrow> fp_update L w uid utterance)"

definition fp_complete ::
  "lib \<Rightarrow> world \<Rightarrow> string \<Rightarrow> string \<Rightarrow> string \<Rightarrow> (error + (string \<times> pyval list) option) \<times> world" where
  "fp_complete L w uid utterance lowered =
     (case re_search L pat_complete False lowered of
        Some m \<Rightarrow>
          (case and_then (match_group m 1) (int_of_str L) of
             Inl e \<Rightarrow> (Inl e, w)
           | Inr task_id \<Rightarrow>
               returned (run_tool L w uid ''complete_task'' [(''task_id'', PInt task_id)] None))
      | None \<Rightarrow> fp_delete L w uid utterance lowered)"

definition fp_list ::
  "lib \<Rightarrow> world \<Rightarrow> string \<Rightarrow> string \<Rightarrow> string \<Rightarrow> (error + (string \<times> pyval list) option) \<times> world" where
  "fp_list L w uid utterance lowered =
     (if list_ex (\<lambda>phrase. contains phrase lowered) [''what's pending'', ''what is pending'', ''pending tasks'']
      then returned (run_tool L w uid ''list_tasks'' [(''status'', PStr ''pending'')] None)
      else if list_ex (\<lambda>phrase. contains phrase lowered) [''completed tasks'', ''done tasks'', ''finished tasks'']
      then returned (run_tool L w uid ''list_tasks'' [(''status'', PStr ''completed'')] None)
      else if ((contains ''task'' lowered \<or> contains ''todo'' lowered)
               \<and> list_ex (\<lambda>word. contains word lowered) [''list'', ''show'', ''what'', ''display''])
              \<or> lowered \<in> set [''tasks'', ''todos'', ''show tasks'', ''list tasks'']
      then (let status = (if contains ''pending'' lowered then ''pending''
                          else if list_ex (\<lambda>word. contains word lowered) [''completed'', ''done'', ''finished'']
                          then ''completed''
                          else ''all'')
            in returned (run_tool L w uid ''list_tasks'' [(''status'', PStr status)] None))
      else fp_complete L w uid utterance lowered)"

definition fp_add ::
  "lib \<Rightarrow> world \<Rightarrow> string \<Rightarrow> string \<Rightarrow> string \<Rightarrow> (error + (string \<times> pyval list) option) \<times> world" where
  "fp_add L w uid utterance lowered =
     (case (case re_match L pat_add True utterance of
              Some m \<Rightarrow> Some m
            | None \<Rightarrow> re_match L pat_remember True utterance) of
        Some m \<Rightarrow>
          (case match_group m 1 of
             Inl e \<Rightarrow> (Inl e, w)
           | Inr g \<Rightarrow>
               (let ttl = strip_wrapping_quotes g
                in if ttl \<noteq> [] then
                     returned (run_tool L w uid ''add_task'' [(''title'', PStr ttl)] None)
                   else fp_list L w uid utterance lowered))
      | None \<Rightarrow> fp_list L w uid utterance lowered)"

definition fast_path_command ::
  "lib \<Rightarrow> world \<Rightarrow> string \<Rightarrow> message list \<Rightarrow> (error + (string \<times> pyval list) option) \<times> world" where
  "fast_path_command L w uid messages =
     (case find (\<lambda>m. role m = ''user'') (rev messages) of
        None \<Rightarrow> (Inr None, w)
      | Some latest_user \<Rightarrow>
          (let utterance = strip (content latest_user)
           in if utterance = [] then (Inr None, w)
              else fp_add L w uid utterance (strip (lower utterance))))"

section \<open>One turn (agent/todo_agent.py, run_agent)\<close>

definition run_agent ::
  "lib \<Rightarrow> world \<Rightarrow> string \<Rightarrow> message list \<Rightarrow> (error + string \<times> pyval list) \<times> world" where
  "run_agent L w uid messages =
     (case fast_path_command L w uid messages of
        (Inl e, w') \<Rightarrow> (Inl e, w')
      | (Inr (Some fast_path), w') \<Rightarrow> (Inr fast_path, w')
      | (Inr None, w') \<Rightarrow>
          agent_loop L uid 0 MAX_TOOL_ITERATIONS (recent_openai_messages messages) [] w')"

section \<open>Example data\<close>

definition demo_store :: store where
  "demo_store =
     \<lparr>tasks = [\<lparr>id' = 1, user_id = ''alice'', title = ''buy milk'', description = None,
                 completed = False, created_at = 10, updated_at = 11\<rparr>,
               \<lparr>id' = 2, user_id = ''bob'', title = ''call mum'', description = Some ''sunday'',
                 completed = False, created_at = 20, updated_at = 21\<rparr>,
               \<lparr>id' = 3, user_id = ''alice'', title = ''pay rent'', description = None,
                 completed = True, created_at = 30, updated_at = 35\<rparr>],
      next_id = 4, tick = 7\<rparr>"

text \<open>A string that begins and ends with the same quote character, as the stripper tests it.\<close>

definition wrapped :: "string \<Rightarrow> bool" where
  "wrapped v \<longleftrightarrow> length v \<ge> 2 \<and> hd v = last v \<and> (hd v = CHR 0x27 \<or> hd v = CHR 0x22)"

text \<open>The rows of the other owners.\<close>

definition others :: "string \<Rightarrow> store \<Rightarrow> task list" where
  "others uid s = filter (\<lambda>t. user_id t \<noteq> uid) (tasks s)"

text \<open>The rows of one owner.\<close>

definition own :: "string \<Rightarrow> store \<Rightarrow> task list" where
  "own uid s = filter (\<lambda>t. user_id t = uid) (tasks s)"

text \<open>
  Collaborators for the examples: a clock, a JSON reader that knows the empty object only,
  regular expressions that never match, and a model given as \<open>answer\<close>.
\<close>

definition demo_lib :: "(nat \<Rightarrow> pyval list \<Rightarrow> error + assistant_message) \<Rightarrow> lib" where
  "demo_lib answer =
     \<lparr>clock = (\<lambda>n. 100 + int n),
      isoformat = (\<lambda>t. ''T''),
      json_loads = (\<lambda>x. if x = ''{}'' then Some (PDict []) else None),
      json_dumps = (\<lambda>v. ''R''),
      int_of_str = (\<lambda>x. Inl ValueError),
      re_match = (\<lambda>p i x. None),
      re_search = (\<lambda>p i x. None),
      create = answer\<rparr>"

definition demo_world :: world where
  "demo_world = \<lparr>db = demo_store, trace = []\<rparr>"

definition hello :: "message list" where
  "hello = [\<lparr>role = ''user'', content = ''hello there''\<rparr>]"

text \<open>A model whose call has broken JSON.\<close>

definition malformed_add :: "nat \<Rightarrow> pyval list \<Rightarrow> error + assistant_message" where
  "malformed_add i msgs = Inr (AssistantMessage None [ToolCall ''call'' ''add_task'' ''{title''])"

section \<open>Reading the trace\<close>

text \<open>
  The audit entries \<open>{name, arguments, result}\<close> of the tool executions of a trace, and the
  rounds of its requests to the model, both in the order of the trace.
\<close>

fun entries :: "event list \<Rightarrow> pyval list" where
  "entries [] = []"
| "entries (Consulted i msgs # es) = entries es"
| "entries (Executed tool_name arguments result # es) = audit_entry tool_name arguments result # entries es"

fun requests :: "event list \<Rightarrow> nat list" where
  "requests [] = []"
| "requests (Consulted i msgs # es) = i # requests es"
| "requests (Executed tool_name arguments result # es) = requests es"

text \<open>
  What a run of the fast path does to the world: it sends no request to the model; when it
  declines it leaves the world as it was; when it returns, its audit trail is the one entry
  of the one tool execution it made.
\<close>

definition fp_ok :: "world \<Rightarrow> (error + (string \<times> pyval list) option) \<times> world \<Rightarrow> bool" where
  "fp_ok w out \<longleftrightarrow>
     (\<exists>evs. trace (snd out) = trace w @ evs \<and> requests evs = [] \<and>
        (case fst out of
           Inl e \<Rightarrow> True
         | Inr None \<Rightarrow> snd out = w
         | Inr (Some (answer, audit)) \<Rightarrow> audit = entries evs \<and> length audit = 1))"

text \<open>A model that asks for a tool in every round, one the dispatcher does not know.\<close>

definition always_calls :: "nat \<Rightarrow> pyval list \<Rightarrow> error + assistant_message" where
  "always_calls i msgs = Inr (AssistantMessage None [ToolCall ''call'' ''noop'' ''{}''])"

text \<open>A history whose latest user message asks for the list.\<close>

definition show_tasks :: "message list" where
  "show_tasks = [\<lparr>role = ''user'', content = ''hello there''\<rparr>,
                 \<lparr>role = ''assistant'', content = ''Hi!''\<rparr>,
                 \<lparr>role = ''user'', content = ''  Show my tasks ''\<rparr>]"

text \<open>A store with twelve tasks of one owner, and the world around it.\<close>

definition busy_store :: store where
  "busy_store =
     \<lparr>tasks = map (\<lambda>i. \<lparr>id' = int i, user_id = ''alice'', title = ''t'', description = None,
                            completed = (i = 5), created_at = int i, updated_at = int i\<rparr>) [1..<13],
      next_id = 13, tick = 0\<rparr>"

definition busy_world :: world where
  "busy_world = \<lparr>db = busy_store, trace = []\<rparr>"

(*DEFS-END*)

section \<open>Properties of the tools\<close>

lemma first_task_SomeD:
  assumes "first_task s uid tid = Some t"
  shows "t \<in> set (tasks s) \<and> id' t = tid \<and> user_id t = uid"
  using assms unfolding first_task_def by (auto simp: find_Some_iff)

lemma wf_store_key:
  assumes "wf_store s" "t \<in> set (tasks s)" "r \<in> set (tasks s)" "id' r = id' t"
  shows "r = t"
  using assms unfolding wf_store_def by (metis distinct_map inj_onD)


lemma first_task_foreign:
  assumes "wf_store s" "t \<in> set (tasks s)" "id' t = tid" "user_id t \<noteq> uid"
  shows "first_task s uid tid = None"
proof -
  have "\<And>r. r \<in> set (tasks s) \<Longrightarrow> id' r = tid \<Longrightarrow> r = t"
    using wf_store_key [OF assms(1,2)] assms(3) by simp
  then show ?thesis
    using assms(4) unfolding first_task_def by (auto simp: find_None_iff)
qed

lemma first_task_absent:
  assumes "tid \<notin> id' ` set (tasks s)"
  shows "first_task s uid tid = None"
  using assms unfolding first_task_def by (auto simp: find_None_iff)

lemma wf_demo_store: "wf_store demo_store"
  by (simp add: wf_store_def demo_store_def)

text \<open>
  C2, as the code has it: \<open>add_task\<close> has no check of the title. Called with the empty
  title it returns without raising, reports \<open>status = "created"\<close> and appends one row with
  the empty title to the table.
\<close>

theorem add_task_empty_title:
  "add_task clk s uid [] descr =
     (PDict [(''task_id'', PInt (next_id s)), (''status'', PStr ''created''), (''title'', PStr [])],
      s\<lparr>tasks := tasks s @ [\<lparr>id' = next_id s, user_id = uid, title = [], description = descr,
                              completed = False, created_at = clk (tick s),
                              updated_at = clk (Suc (tick s))\<rparr>],
        next_id := next_id s + 1, tick := Suc (Suc (tick s))\<rparr>)"
  by (simp add: add_task_def utcnow_def Let_def)

text \<open>C2 as stated fails: after \<open>add_task\<close> with the empty title the store is another one.\<close>

theorem add_task_empty_title_counterexample:
  "snd (add_task (\<lambda>n. int n) \<lparr>tasks = [], next_id = 1, tick = 0\<rparr> ''alice'' [] None)
     \<noteq> \<lparr>tasks = [], next_id = 1, tick = 0\<rparr>"
  by (simp add: add_task_def utcnow_def Let_def)

text \<open>
  C3: a task id that exists for another owner. \<open>complete_task\<close>, \<open>delete_task\<close> and
  \<open>update_task\<close> return the dictionary \<open>{task_id, status = "error", error = "Task not found"}\<close>
  and the store as it was, so the other owner's row stays; on a store \<open>s0\<close> where no row has
  that id they return the same dictionary.
\<close>

theorem foreign_task_not_found:
  assumes "wf_store s" "t \<in> set (tasks s)" "id' t = tid" "user_id t \<noteq> uid"
    and "tid \<notin> id' ` set (tasks s0)"
  shows "complete_task clk s uid tid =
           (PDict [(''task_id'', PInt tid), (''status'', PStr ''error''), (''error'', PStr ''Task not found'')], s)
       \<and> delete_task s uid tid =
           (PDict [(''task_id'', PInt tid), (''status'', PStr ''error''), (''error'', PStr ''Task not found'')], s)
       \<and> update_task clk s uid tid ttl descr =
           (PDict [(''task_id'', PInt tid), (''status'', PStr ''error''), (''error'', PStr ''Task not found'')], s)
       \<and> complete_task clk s0 uid tid =
           (PDict [(''task_id'', PInt tid), (''status'', PStr ''error''), (''error'', PStr ''Task not found'')], s0)
       \<and> delete_task s0 uid tid =
           (PDict [(''task_id'', PInt tid), (''status'', PStr ''error''), (''error'', PStr ''Task not found'')], s0)
       \<and> update_task clk s0 uid tid ttl descr =
           (PDict [(''task_id'', PInt tid), (''status'', PStr ''error''), (''error'', PStr ''Task not found'')], s0)"
proof -
  have a: "first_task s uid tid = None"
    using assms(1-4) by (rule first_task_foreign)
  have b: "first_task s0 uid tid = None"
    using assms(5) by (rule first_task_absent)
  show ?thesis
    by (simp add: a b complete_task_def delete_task_def update_task_def not_found_def)
qed

theorem foreign_task_not_found_witness:
  "wf_store demo_store \<and> tasks demo_store ! 1 \<in> set (tasks demo_store)
     \<and> id' (tasks demo_store ! 1) = 2 \<and> user_id (tasks demo_store ! 1) \<noteq> ''alice''
     \<and> 2 \<notin> id' ` set (tasks (demo_store\<lparr>tasks := []\<rparr>))
     \<and> complete_task (\<lambda>n. 40 + int n) demo_store ''alice'' 2 =
         (PDict [(''task_id'', PInt 2), (''status'', PStr ''error''), (''error'', PStr ''Task not found'')], demo_store)
     \<and> delete_task demo_store ''alice'' 2 =
         (PDict [(''task_id'', PInt 2), (''status'', PStr ''error''), (''error'', PStr ''Task not found'')], demo_store)
     \<and> update_task (\<lambda>n. 40 + int n) demo_store ''alice'' 2 (Some ''mine now'') None =
         (PDict [(''task_id'', PInt 2), (''status'', PStr ''error''), (''error'', PStr ''Task not found'')], demo_store)
     \<and> complete_task (\<lambda>n. 40 + int n) (demo_store\<lparr>tasks := []\<rparr>) ''alice'' 2 =
         (PDict [(''task_id'', PInt 2), (''status'', PStr ''error''), (''error'', PStr ''Task not found'')],
          demo_store\<lparr>tasks := []\<rparr>)"
proof -
  have m: "tasks demo_store ! 1 \<in> set (tasks demo_store)"
    by (simp add: demo_store_def)
  have i: "id' (tasks demo_store ! 1) = 2"
    by (simp add: demo_store_def)
  have u: "user_id (tasks demo_store ! 1) \<noteq> ''alice''"
    by (simp add: demo_store_def)
  have e: "2 \<notin> id' ` set (tasks (demo_store\<lparr>tasks := []\<rparr>))"
    by simp
  note r = foreign_task_not_found [OF wf_demo_store m i u e, of "\<lambda>n. 40 + int n" "Some ''mine now''" None]
  show ?thesis
    using wf_demo_store m i u e r by blast
qed


lemma select_tasks_mset:
  "mset (select_tasks s uid st) =
     filter_mset (\<lambda>t. user_id t = uid \<and> (st = PStr ''pending'' \<longrightarrow> \<not> completed t)
                        \<and> (st \<noteq> PStr ''pending'' \<and> st = PStr ''completed'' \<longrightarrow> completed t))
       (mset (tasks s))"
  unfolding select_tasks_def Let_def
  by (auto simp: filter_mset_eq_conv intro!: filter_mset_cong)

lemma select_tasks_sorted:
  "sorted_wrt (\<lambda>a b. created_at a \<ge> created_at b) (select_tasks s uid st)"
proof -
  have "sorted (map (\<lambda>t. - created_at t) (select_tasks s uid st))"
    unfolding select_tasks_def Let_def by simp
  then show ?thesis
    by (simp add: sorted_wrt_map)
qed

text \<open>
  C6: for a status among all, pending and completed, \<open>list_tasks\<close> returns one dictionary
  \<open>{id, title, description, completed, created_at}\<close> for each of the owner's rows of that
  status and for no other row (as a multiset: each row once), the row created last first.
\<close>

theorem list_tasks_newest_first:
  assumes "st \<in> {''all'', ''pending'', ''completed''}"
  shows "\<exists>rows. list_tasks isofmt s uid (PStr st) =
             PList (map (\<lambda>t. PDict [(''id'', PInt (id' t)),
                                     (''title'', PStr (title t)),
                                     (''description'', (case description t of None \<Rightarrow> PNone | Some d \<Rightarrow> PStr d)),
                                     (''completed'', PBool (completed t)),
                                     (''created_at'', PStr (isofmt (created_at t)))]) rows)
           \<and> mset rows = filter_mset (\<lambda>t. user_id t = uid \<and>
                  (if st = ''pending'' then \<not> completed t
                   else if st = ''completed'' then completed t else True)) (mset (tasks s))
           \<and> sorted_wrt (\<lambda>a b. created_at a \<ge> created_at b) rows"
proof (intro exI conjI)
  show "list_tasks isofmt s uid (PStr st) =
             PList (map (\<lambda>t. PDict [(''id'', PInt (id' t)),
                                     (''title'', PStr (title t)),
                                     (''description'', (case description t of None \<Rightarrow> PNone | Some d \<Rightarrow> PStr d)),
                                     (''completed'', PBool (completed t)),
                                     (''created_at'', PStr (isofmt (created_at t)))]) (select_tasks s uid (PStr st)))"
    by (simp add: list_tasks_def task_summary_def)
  show "mset (select_tasks s uid (PStr st)) = filter_mset (\<lambda>t. user_id t = uid \<and>
                  (if st = ''pending'' then \<not> completed t
                   else if st = ''completed'' then completed t else True)) (mset (tasks s))"
    unfolding select_tasks_mset by (rule filter_mset_cong) auto
  show "sorted_wrt (\<lambda>a b. created_at a \<ge> created_at b) (select_tasks s uid (PStr st))"
    by (rule select_tasks_sorted)
qed

theorem list_tasks_newest_first_witness:
  "''all'' \<in> {''all'', ''pending'', ''completed''} \<and>
   (\<exists>rows. list_tasks (\<lambda>t. ''T'') demo_store ''alice'' (PStr ''all'') =
             PList (map (\<lambda>t. PDict [(''id'', PInt (id' t)),
                                     (''title'', PStr (title t)),
                                     (''description'', (case description t of None \<Rightarrow> PNone | Some d \<Rightarrow> PStr d)),
                                     (''completed'', PBool (completed t)),
                                     (''created_at'', PStr ''T'')]) rows)
           \<and> mset rows = filter_mset (\<lambda>t. user_id t = ''alice'') (mset (tasks demo_store))
           \<and> sorted_wrt (\<lambda>a b. created_at a \<ge> created_at b) rows)
   \<and> list_tasks (\<lambda>t. ''T'') demo_store ''alice'' (PStr ''all'') =
       PList [PDict [(''id'', PInt 3), (''title'', PStr ''pay rent''), (''description'', PNone),
                     (''completed'', PBool True), (''created_at'', PStr ''T'')],
              PDict [(''id'', PInt 1), (''title'', PStr ''buy milk''), (''description'', PNone),
                     (''completed'', PBool False), (''created_at'', PStr ''T'')]]
   \<and> list_tasks (\<lambda>t. ''T'') demo_store ''alice'' (PStr ''pending'') =
       PList [PDict [(''id'', PInt 1), (''title'', PStr ''buy milk''), (''description'', PNone),
                     (''completed'', PBool False), (''created_at'', PStr ''T'')]]"
proof -
  have a: "list_tasks (\<lambda>t. ''T'') demo_store ''alice'' (PStr ''all'') =
       PList [PDict [(''id'', PInt 3), (''title'', PStr ''pay rent''), (''description'', PNone),
                     (''completed'', PBool True), (''created_at'', PStr ''T'')],
              PDict [(''id'', PInt 1), (''title'', PStr ''buy milk''), (''description'', PNone),
                     (''completed'', PBool False), (''created_at'', PStr ''T'')]]"
    by (simp add: list_tasks_def select_tasks_def task_summary_def demo_store_def)
  have b: "list_tasks (\<lambda>t. ''T'') demo_store ''alice'' (PStr ''pending'') =
       PList [PDict [(''id'', PInt 1), (''title'', PStr ''buy milk''), (''description'', PNone),
                     (''completed'', PBool False), (''created_at'', PStr ''T'')]]"
    by (simp add: list_tasks_def select_tasks_def task_summary_def demo_store_def)
  show ?thesis
    using list_tasks_newest_first [of "''all''" "\<lambda>t. ''T''" demo_store "''alice''"] a b by simp
qed



section \<open>Properties of the quote stripper\<close>

lemma rev_dropWhile_rev_take:
  "rev (dropWhile P (rev xs)) = take (length xs - length (takeWhile P (rev xs))) xs"
proof -
  have "dropWhile P (rev xs) = drop (length (takeWhile P (rev xs))) (rev xs)"
    by (rule dropWhile_eq_drop)
  then show ?thesis
    by (simp add: rev_drop)
qed

lemma strip_no_lead: "dropWhile isspace (strip s) = strip s"
proof (cases "strip s")
  case Nil
  then show ?thesis by simp
next
  case (Cons c cs)
  define d where "d = dropWhile isspace s"
  have r: "strip s = take (length d - length (takeWhile isspace (rev d))) d"
    unfolding strip_def d_def by (rule rev_dropWhile_rev_take)
  with Cons have "d \<noteq> []" by auto
  then have "\<not> isspace (hd d)"
    unfolding d_def by (rule hd_dropWhile)
  moreover have "hd d = c"
    using r Cons by (cases d) (auto split: if_splits simp: take_Cons')
  ultimately show ?thesis
    using Cons by simp
qed

lemma strip_no_trail: "dropWhile isspace (rev (strip s)) = rev (strip s)"
  by (simp add: strip_def)

lemma strip_strip: "strip (strip s) = strip s"
  by (simp add: strip_def [of "strip s"] strip_no_lead strip_no_trail)

lemma length_strip: "length (strip s) \<le> length s"
proof -
  have "length (strip s) = length (dropWhile isspace (rev (dropWhile isspace s)))"
    by (simp add: strip_def)
  also have "\<dots> \<le> length (rev (dropWhile isspace s))"
    by (rule length_dropWhile_le)
  also have "\<dots> \<le> length s"
    by (simp add: length_dropWhile_le)
  finally show ?thesis .
qed

lemma swq_unfold:
  "strip_wrapping_quotes v = (if wrapped (strip v) then strip (butlast (tl (strip v))) else strip v)"
  by (simp add: strip_wrapping_quotes_def wrapped_def Let_def)

lemma strip_swq: "strip (strip_wrapping_quotes v) = strip_wrapping_quotes v"
  by (simp add: swq_unfold strip_strip)

lemma swq_shrinks:
  assumes "wrapped r"
  shows "length (strip (butlast (tl r))) < length r"
proof -
  have "length (strip (butlast (tl r))) \<le> length (butlast (tl r))"
    by (rule length_strip)
  also have "\<dots> < length r"
    using assms by (auto simp: wrapped_def)
  finally show ?thesis .
qed

text \<open>
  C8, as the code has it: the stripper removes surrounding whitespace and one layer of
  quotes. Stripping twice equals stripping once exactly when the stripped string is not itself
  wrapped in quotes; a string without surrounding whitespace and without wrapping quotes comes
  back unchanged; both quoted forms of \<open>buy milk\<close> resolve to it.
\<close>

theorem strip_wrapping_quotes_twice:
  "(strip_wrapping_quotes (strip_wrapping_quotes v) = strip_wrapping_quotes v
      \<longleftrightarrow> \<not> wrapped (strip_wrapping_quotes v))
   \<and> (strip v = v \<and> \<not> wrapped v \<longrightarrow> strip_wrapping_quotes v = v)
   \<and> strip_wrapping_quotes ([CHR 0x27] @ ''buy milk'' @ [CHR 0x27]) = ''buy milk''
   \<and> strip_wrapping_quotes ([CHR 0x22] @ ''buy milk'' @ [CHR 0x22]) = ''buy milk''"
proof (intro conjI)
  define r where "r = strip_wrapping_quotes v"
  have sr: "strip r = r"
    unfolding r_def by (rule strip_swq)
  show "strip_wrapping_quotes (strip_wrapping_quotes v) = strip_wrapping_quotes v
      \<longleftrightarrow> \<not> wrapped (strip_wrapping_quotes v)"
  proof (cases "wrapped r")
    case True
    then have "length (strip_wrapping_quotes r) < length r"
      using swq_shrinks [OF True] by (simp add: swq_unfold sr)
    then have "strip_wrapping_quotes r \<noteq> r"
      by auto
    with True show ?thesis
      by (simp add: r_def)
  next
    case False
    then have "strip_wrapping_quotes r = r"
      by (simp add: swq_unfold sr)
    with False show ?thesis
      by (simp add: r_def)
  qed
  show "strip v = v \<and> \<not> wrapped v \<longrightarrow> strip_wrapping_quotes v = v"
    by (simp add: swq_unfold)
  show "strip_wrapping_quotes ([CHR 0x27] @ ''buy milk'' @ [CHR 0x27]) = ''buy milk''"
    by (simp add: strip_wrapping_quotes_def strip_def isspace_def)
  show "strip_wrapping_quotes ([CHR 0x22] @ ''buy milk'' @ [CHR 0x22]) = ''buy milk''"
    by (simp add: strip_wrapping_quotes_def strip_def isspace_def)
qed

theorem strip_wrapping_quotes_twice_witness:
  "strip ''buy milk'' = ''buy milk'' \<and> \<not> wrapped ''buy milk'' \<and> strip_wrapping_quotes ''buy milk'' = ''buy milk''"
proof -
  have a: "strip ''buy milk'' = ''buy milk''"
    by (simp add: strip_def isspace_def)
  have b: "\<not> wrapped ''buy milk''"
    by (simp add: wrapped_def)
  show ?thesis
    using a b strip_wrapping_quotes_twice [of "''buy milk''"] by blast
qed

text \<open>C8 as stated fails: on a doubly quoted string the second stripping removes the inner quotes.\<close>

theorem strip_wrapping_quotes_counterexample:
  "strip_wrapping_quotes (strip_wrapping_quotes [CHR 0x22, CHR 0x27, CHR ''a'', CHR 0x27, CHR 0x22])
     \<noteq> strip_wrapping_quotes [CHR 0x22, CHR 0x27, CHR ''a'', CHR 0x27, CHR 0x22]"
  by (simp add: strip_wrapping_quotes_def strip_def isspace_def)

section \<open>Properties of the dispatch\<close>

lemma filter_map_unchanged:
  assumes "\<And>x. x \<in> set xs \<Longrightarrow> P x \<Longrightarrow> f x = x"
    and "\<And>x. x \<in> set xs \<Longrightarrow> \<not> P x \<Longrightarrow> \<not> P (f x)"
  shows "filter P (map f xs) = filter P xs"
  using assms by (induction xs) auto

lemma filter_filter_unchanged:
  assumes "\<And>x. x \<in> set xs \<Longrightarrow> P x \<Longrightarrow> Q x"
  shows "filter P (filter Q xs) = filter P xs"
  using assms by (induction xs) auto

lemma others_add_task: "others uid (snd (add_task clk s uid ttl descr)) = others uid s"
  by (simp add: add_task_def utcnow_def Let_def others_def)

lemma others_commit:
  assumes "wf_store s" "t \<in> set (tasks s)" "user_id t = uid" "id' t' = id' t" "user_id t' = uid"
  shows "others uid (commit_task (s\<lparr>tick := n\<rparr>) t') = others uid s"
proof -
  have "filter (\<lambda>t. user_id t \<noteq> uid) (map (\<lambda>r. if id' r = id' t' then t' else r) (tasks s))
        = filter (\<lambda>t. user_id t \<noteq> uid) (tasks s)"
  proof (rule filter_map_unchanged)
    fix x assume "x \<in> set (tasks s)" "user_id x \<noteq> uid"
    then show "(if id' x = id' t' then t' else x) = x"
      using wf_store_key [OF assms(1,2)] assms(3,4) by auto
  next
    fix x assume "x \<in> set (tasks s)" "\<not> user_id x \<noteq> uid"
    then show "\<not> user_id (if id' x = id' t' then t' else x) \<noteq> uid"
      using assms(5) by simp
  qed
  then show ?thesis
    by (simp add: others_def commit_task_def)
qed

lemma others_delete:
  assumes "wf_store s" "t \<in> set (tasks s)" "user_id t = uid"
  shows "others uid (delete_row s t) = others uid s"
proof -
  have "filter (\<lambda>t. user_id t \<noteq> uid) (filter (\<lambda>r. id' r \<noteq> id' t) (tasks s))
        = filter (\<lambda>t. user_id t \<noteq> uid) (tasks s)"
  proof (rule filter_filter_unchanged)
    fix x assume "x \<in> set (tasks s)" "user_id x \<noteq> uid"
    then show "id' x \<noteq> id' t"
      using wf_store_key [OF assms(1,2)] assms(3) by auto
  qed
  then show ?thesis
    by (simp add: others_def delete_row_def)
qed

lemma others_complete_task:
  assumes "wf_store s"
  shows "others uid (snd (complete_task clk s uid tid)) = others uid s"
proof (cases "first_task s uid tid")
  case None
  then show ?thesis by (simp add: complete_task_def)
next
  case (Some t)
  note d = first_task_SomeD [OF Some]
  show ?thesis
    using others_commit [OF assms, of t uid "t\<lparr>completed := True, updated_at := clk (tick s)\<rparr>" "Suc (tick s)"] d
    by (simp add: complete_task_def Some utcnow_def Let_def)
qed

lemma others_delete_task:
  assumes "wf_store s"
  shows "others uid (snd (delete_task s uid tid)) = others uid s"
proof (cases "first_task s uid tid")
  case None
  then show ?thesis by (simp add: delete_task_def)
next
  case (Some t)
  note d = first_task_SomeD [OF Some]
  show ?thesis
    using others_delete [OF assms, of t uid] d
    by (simp add: delete_task_def Some)
qed

lemma others_update_task:
  assumes "wf_store s"
  shows "others uid (snd (update_task clk s uid tid ttl descr)) = others uid s"
proof (cases "first_task s uid tid")
  case None
  then show ?thesis by (simp add: update_task_def)
next
  case (Some t)
  note d = first_task_SomeD [OF Some]
  define t3 where "t3 = (case descr of None \<Rightarrow> (case ttl of None \<Rightarrow> t | Some x \<Rightarrow> t\<lparr>title := x\<rparr>)
      | Some d \<Rightarrow> (case ttl of None \<Rightarrow> t | Some x \<Rightarrow> t\<lparr>title := x\<rparr>)\<lparr>description := Some d\<rparr>)\<lparr>updated_at := clk (tick s)\<rparr>"
  have k: "id' t3 = id' t \<and> user_id t3 = uid"
    using d by (simp add: t3_def split: option.splits)
  have "snd (update_task clk s uid tid ttl descr) = commit_task (s\<lparr>tick := Suc (tick s)\<rparr>) t3"
    unfolding t3_def update_task_def by (simp add: Some utcnow_def Let_def)
  then show ?thesis
    using others_commit [OF assms, of t uid t3 "Suc (tick s)"] d k by simp
qed

lemma others_execute_tool:
  assumes "wf_store s"
  shows "others uid (snd (execute_tool clk isofmt s uid tool_name arguments)) = others uid s"
proof -
  have a: "\<And>ttl descr. others uid (snd (case add_task clk s uid ttl descr of (r, s') \<Rightarrow> (Inr r, s'))) = others uid s"
    using others_add_task [of uid clk s] by (simp add: split_beta)
  have c: "\<And>tid. others uid (snd (case complete_task clk s uid tid of (r, s') \<Rightarrow> (Inr r, s'))) = others uid s"
    using others_complete_task [OF assms, of uid clk] by (simp add: split_beta)
  have d: "\<And>tid. others uid (snd (case delete_task s uid tid of (r, s') \<Rightarrow> (Inr r, s'))) = others uid s"
    using others_delete_task [OF assms, of uid] by (simp add: split_beta)
  have u: "\<And>tid ttl descr. others uid (snd (case update_task clk s uid tid ttl descr of (r, s') \<Rightarrow> (Inr r, s'))) = others uid s"
    using others_update_task [OF assms, of uid clk] by (simp add: split_beta)
  show ?thesis
    unfolding execute_tool_def
    by (simp add: a c d u split: sum.splits)
qed

lemma execute_tool_bind_error:
  assumes "tool_name \<in> set tool_names"
    and "\<And>params required. bind_kwargs params required arguments = Inl e"
  shows "execute_tool clk isofmt s uid tool_name arguments = (Inl e, s)"
  using assms by (auto simp: execute_tool_def tool_names_def)

lemma bind_empty:
  "bind_kwargs params required (PDict []) =
     (case required of [] \<Rightarrow> Inr [] | p # ps \<Rightarrow> Inl (TypeError (MissingArgument p)))"
  by (simp add: bind_kwargs_def split: list.splits)

lemma e1: "tool_name \<notin> set tool_names \<Longrightarrow> execute_tool clk isofmt s uid tool_name (PDict []) =
        (Inr (PDict [(''error'', PStr (''Unknown tool: '' @ tool_name))]), s)"
  by (simp add: execute_tool_def)

lemma e2: "execute_tool clk isofmt s uid ''list_tasks'' (PDict []) = (Inr (list_tasks isofmt s uid (PStr ''all'')), s)"
  by (simp add: execute_tool_def tool_names_def bind_empty)

lemma e3: "execute_tool clk isofmt s uid ''add_task'' (PDict []) = (Inl (TypeError (MissingArgument ''title'')), s)"
  by (simp add: execute_tool_def tool_names_def bind_empty)

lemma e4: "execute_tool clk isofmt s uid ''complete_task'' (PDict []) = (Inl (TypeError (MissingArgument ''task_id'')), s)"
  by (simp add: execute_tool_def tool_names_def bind_empty)

lemma e5: "execute_tool clk isofmt s uid ''delete_task'' (PDict []) = (Inl (TypeError (MissingArgument ''task_id'')), s)"
  by (simp add: execute_tool_def tool_names_def bind_empty)

lemma e6: "execute_tool clk isofmt s uid ''update_task'' (PDict []) = (Inl (TypeError (MissingArgument ''task_id'')), s)"
  by (simp add: execute_tool_def tool_names_def bind_empty)

lemma run_bad2:
  "fst (run_agent (demo_lib malformed_add) demo_world ''alice'' hello)
       = Inl (TypeError (MissingArgument ''title''))"
    by code_simp

lemma duplicate_keyword:
  assumes "k \<in> fst ` set kw" "k = ''session'' \<or> k = ''user_id''"
  shows "\<exists>k'. (k' = ''session'' \<or> k' = ''user_id'') \<and> k' \<in> fst ` set kw
           \<and> (\<forall>params required. bind_kwargs params required (PDict kw) = Inl (TypeError (MultipleValues k')))"
proof -
  have "find (\<lambda>k. k = ''session'' \<or> k = ''user_id'') (map fst kw) \<noteq> None"
    using assms by (auto simp: find_None_iff)
  then obtain k' where f: "find (\<lambda>k. k = ''session'' \<or> k = ''user_id'') (map fst kw) = Some k'"
    by auto
  then obtain i where i: "i < length (map fst kw)" "k' = map fst kw ! i" "k' = ''session'' \<or> k' = ''user_id''"
    unfolding find_Some_iff by blast
  have "k' \<in> set (map fst kw)"
    using i(1,2) nth_mem by metis
  then have m: "k' \<in> fst ` set kw"
    by simp
  have "\<And>params required. bind_kwargs params required (PDict kw) = Inl (TypeError (MultipleValues k'))"
    by (simp add: bind_kwargs_def f)
  then show ?thesis
    using i(3) m by blast
qed

lemma find_conj_filter: "find (\<lambda>t. P t \<and> Q t) xs = find P (filter Q xs)"
  by (induction xs) auto

lemma first_task_own: "first_task s uid tid = find (\<lambda>t. id' t = tid) (own uid s)"
  unfolding first_task_def own_def by (rule find_conj_filter)

lemma select_tasks_own:
  assumes "own uid s = own uid s2"
  shows "select_tasks s uid st = select_tasks s2 uid st"
  using assms unfolding select_tasks_def own_def by simp

lemma first_task_scope:
  assumes "own uid s = own uid s2"
  shows "first_task s uid tid = first_task s2 uid tid"
  using assms by (simp add: first_task_own)

lemma fst_add_task: "fst (add_task clk s uid ttl descr) =
    PDict [(''task_id'', PInt (next_id s)), (''status'', PStr ''created''), (''title'', PStr ttl)]"
  by (simp add: add_task_def utcnow_def Let_def)

lemma fst_complete_task: "fst (complete_task clk s uid tid) =
    (case first_task s uid tid of None \<Rightarrow> not_found tid
     | Some t \<Rightarrow> PDict [(''task_id'', PInt (id' t)), (''status'', PStr ''completed''), (''title'', PStr (title t))])"
  by (simp add: complete_task_def utcnow_def Let_def split: option.splits)

lemma fst_delete_task: "fst (delete_task s uid tid) =
    (case first_task s uid tid of None \<Rightarrow> not_found tid
     | Some t \<Rightarrow> PDict [(''task_id'', PInt tid), (''status'', PStr ''deleted''), (''title'', PStr (title t))])"
  by (simp add: delete_task_def split: option.splits)

lemma fst_update_task: "fst (update_task clk s uid tid ttl descr) =
    (case first_task s uid tid of None \<Rightarrow> not_found tid
     | Some t \<Rightarrow> PDict [(''task_id'', PInt (id' t)), (''status'', PStr ''updated''),
                        (''title'', PStr (case ttl of None \<Rightarrow> title t | Some x \<Rightarrow> x))])"
  by (simp add: update_task_def utcnow_def Let_def split: option.splits)

lemma x_add: "execute_tool clk isofmt s uid ''add_task'' a =
        (case bind_kwargs [''title'', ''description''] [''title''] a of
           Inl e \<Rightarrow> (Inl e, s)
         | Inr kw \<Rightarrow>
             (case as_str (map_of kw ''title'') of
                Inl e \<Rightarrow> (Inl e, s)
              | Inr ttl \<Rightarrow>
                  (case as_opt_str (map_of kw ''description'') of
                     Inl e \<Rightarrow> (Inl e, s)
                   | Inr descr \<Rightarrow>
                       (let (r, s') = add_task clk s uid ttl descr in (Inr r, s')))))"
  by (simp add: execute_tool_def tool_names_def)

lemma x_list: "execute_tool clk isofmt s uid ''list_tasks'' a =
        (case bind_kwargs [''status''] [] a of
           Inl e \<Rightarrow> (Inl e, s)
         | Inr kw \<Rightarrow>
             (Inr (list_tasks isofmt s uid
                     (case map_of kw ''status'' of None \<Rightarrow> PStr ''all'' | Some v \<Rightarrow> v)), s))"
  by (simp add: execute_tool_def tool_names_def)

lemma x_complete: "execute_tool clk isofmt s uid ''complete_task'' a =
        (case bind_kwargs [''task_id''] [''task_id''] a of
           Inl e \<Rightarrow> (Inl e, s)
         | Inr kw \<Rightarrow>
             (case as_int (map_of kw ''task_id'') of
                Inl e \<Rightarrow> (Inl e, s)
              | Inr tid \<Rightarrow> (let (r, s') = complete_task clk s uid tid in (Inr r, s'))))"
  by (simp add: execute_tool_def tool_names_def)

lemma x_delete: "execute_tool clk isofmt s uid ''delete_task'' a =
        (case bind_kwargs [''task_id''] [''task_id''] a of
           Inl e \<Rightarrow> (Inl e, s)
         | Inr kw \<Rightarrow>
             (case as_int (map_of kw ''task_id'') of
                Inl e \<Rightarrow> (Inl e, s)
              | Inr tid \<Rightarrow> (let (r, s') = delete_task s uid tid in (Inr r, s'))))"
  by (simp add: execute_tool_def tool_names_def)

lemma x_update: "execute_tool clk isofmt s uid ''update_task'' a =
        (case bind_kwargs [''task_id'', ''title'', ''description''] [''task_id''] a of
           Inl e \<Rightarrow> (Inl e, s)
         | Inr kw \<Rightarrow>
             (case as_int (map_of kw ''task_id'') of
                Inl e \<Rightarrow> (Inl e, s)
              | Inr tid \<Rightarrow>
                  (case as_opt_str (map_of kw ''title'') of
                     Inl e \<Rightarrow> (Inl e, s)
                   | Inr ttl \<Rightarrow>
                       (case as_opt_str (map_of kw ''description'') of
                          Inl e \<Rightarrow> (Inl e, s)
                        | Inr descr \<Rightarrow>
                            (let (r, s') = update_task clk s uid tid ttl descr in (Inr r, s'))))))"
  by (simp add: execute_tool_def tool_names_def)

lemma x_unknown: "tool_name \<notin> set tool_names \<Longrightarrow> execute_tool clk isofmt s uid tool_name a =
        (Inr (PDict [(''error'', PStr (''Unknown tool: '' @ tool_name))]), s)"
  by (simp add: execute_tool_def)

lemma tool_names_cases:
  assumes "tool_name \<in> set tool_names"
  shows "tool_name = ''add_task'' \<or> tool_name = ''list_tasks'' \<or> tool_name = ''complete_task''
        \<or> tool_name = ''delete_task'' \<or> tool_name = ''update_task''"
  using assms unfolding tool_names_def by simp

lemma execute_tool_reads_own:
  assumes o: "own uid s = own uid s2" and n: "next_id s = next_id s2"
  shows "fst (execute_tool clk isofmt s uid tool_name a) = fst (execute_tool clk isofmt s2 uid tool_name a)"
proof (cases "tool_name \<in> set tool_names")
  case False
  then show ?thesis
    by (simp add: x_unknown)
next
  case True
  note f = first_task_scope [OF o]
  have l: "\<And>st. list_tasks isofmt s uid st = list_tasks isofmt s2 uid st"
    by (simp add: list_tasks_def select_tasks_own [OF o])
  from tool_names_cases [OF True] show ?thesis
  proof (elim disjE)
    assume "tool_name = ''add_task''"
    then show ?thesis
      by (simp add: x_add split_beta fst_add_task n split: sum.splits)
  next
    assume "tool_name = ''list_tasks''"
    then show ?thesis
      by (simp add: x_list l split: sum.splits)
  next
    assume "tool_name = ''complete_task''"
    then show ?thesis
      by (simp add: x_complete split_beta fst_complete_task f split: sum.splits)
  next
    assume "tool_name = ''delete_task''"
    then show ?thesis
      by (simp add: x_delete split_beta fst_delete_task f split: sum.splits)
  next
    assume "tool_name = ''update_task''"
    then show ?thesis
      by (simp add: x_update split_beta fst_update_task f split: sum.splits)
  qed
qed

lemma execute_tool_runs_as_caller:
  assumes "tool_name \<in> set tool_names"
    and "execute_tool clk isofmt s uid tool_name a = (Inr r, s')"
  shows "(\<exists>ttl descr. tool_name = ''add_task'' \<and> (r, s') = add_task clk s uid ttl descr)
       \<or> (\<exists>st. tool_name = ''list_tasks'' \<and> (r, s') = (list_tasks isofmt s uid st, s))
       \<or> (\<exists>tid. tool_name = ''complete_task'' \<and> (r, s') = complete_task clk s uid tid)
       \<or> (\<exists>tid. tool_name = ''delete_task'' \<and> (r, s') = delete_task s uid tid)
       \<or> (\<exists>tid ttl descr. tool_name = ''update_task'' \<and> (r, s') = update_task clk s uid tid ttl descr)"
  using tool_names_cases [OF assms(1)]
proof (elim disjE)
  assume t: "tool_name = ''add_task''"
  have e: "execute_tool clk isofmt s uid ''add_task'' a = (Inr r, s')"
    using assms(2) t by simp
  have "\<exists>ttl descr. (r, s') = add_task clk s uid ttl descr"
  proof (cases "bind_kwargs [''title'', ''description''] [''title''] a")
    case (Inl x)
    with e show ?thesis by (simp add: x_add)
  next
    case b: (Inr kw)
    show ?thesis
    proof (cases "as_str (map_of kw ''title'')")
      case (Inl x)
      with b e show ?thesis by (simp add: x_add)
    next
      case n: (Inr ttl)
      show ?thesis
      proof (cases "as_opt_str (map_of kw ''description'')")
        case (Inl x)
        with b n e show ?thesis by (simp add: x_add)
      next
        case d: (Inr descr)
        have "fst (add_task clk s uid ttl descr) = r \<and> snd (add_task clk s uid ttl descr) = s'"
          using b n d e by (simp add: x_add split_beta)
        then have "(r, s') = add_task clk s uid ttl descr"
          by (auto simp: prod_eq_iff)
        then show ?thesis by (intro exI)
      qed
    qed
  qed
  then obtain ttl descr where "(r, s') = add_task clk s uid ttl descr"
    by (elim exE)
  with t have "\<exists>ttl descr. tool_name = ''add_task'' \<and> (r, s') = add_task clk s uid ttl descr"
    by (intro exI conjI)
  then show ?thesis
    by (rule disjI1)
next
  assume t: "tool_name = ''list_tasks''"
  have e: "execute_tool clk isofmt s uid ''list_tasks'' a = (Inr r, s')"
    using assms(2) t by simp
  have "\<exists>st. (r, s') = (list_tasks isofmt s uid st, s)"
  proof (cases "bind_kwargs [''status''] [] a")
    case (Inl x)
    with e show ?thesis by (simp add: x_list)
  next
    case b: (Inr kw)
    have "(r, s') = (list_tasks isofmt s uid (case map_of kw ''status'' of None \<Rightarrow> PStr ''all'' | Some v \<Rightarrow> v), s)"
      using b e by (auto simp: x_list)
    then show ?thesis by (intro exI)
  qed
  then obtain st where "(r, s') = (list_tasks isofmt s uid st, s)"
    by (elim exE)
  with t have "\<exists>st. tool_name = ''list_tasks'' \<and> (r, s') = (list_tasks isofmt s uid st, s)"
    by (intro exI conjI)
  then show ?thesis
    by (rule disjI2 [OF disjI1])
next
  assume t: "tool_name = ''complete_task''"
  have e: "execute_tool clk isofmt s uid ''complete_task'' a = (Inr r, s')"
    using assms(2) t by simp
  have "\<exists>tid. (r, s') = complete_task clk s uid tid"
  proof (cases "bind_kwargs [''task_id''] [''task_id''] a")
    case (Inl x)
    with e show ?thesis by (simp add: x_complete)
  next
    case b: (Inr kw)
    show ?thesis
    proof (cases "as_int (map_of kw ''task_id'')")
      case (Inl x)
      with b e show ?thesis by (simp add: x_complete)
    next
      case i: (Inr tid)
      have "fst (complete_task clk s uid tid) = r \<and> snd (complete_task clk s uid tid) = s'"
        using b i e by (simp add: x_complete split_beta)
      then have "(r, s') = complete_task clk s uid tid"
        by (auto simp: prod_eq_iff)
      then show ?thesis by (intro exI)
    qed
  qed
  then obtain tid where "(r, s') = complete_task clk s uid tid"
    by (elim exE)
  with t have "\<exists>tid. tool_name = ''complete_task'' \<and> (r, s') = complete_task clk s uid tid"
    by (intro exI conjI)
  then show ?thesis
    by (rule disjI2 [OF disjI2 [OF disjI1]])
next
  assume t: "tool_name = ''delete_task''"
  have e: "execute_tool clk isofmt s uid ''delete_task'' a = (Inr r, s')"
    using assms(2) t by simp
  have "\<exists>tid. (r, s') = delete_task s uid tid"
  proof (cases "bind_kwargs [''task_id''] [''task_id''] a")
    case (Inl x)
    with e show ?thesis by (simp add: x_delete)
  next
    case b: (Inr kw)
    show ?thesis
    proof (cases "as_int (map_of kw ''task_id'')")
      case (Inl x)
      with b e show ?thesis by (simp add: x_delete)
    next
      case i: (Inr tid)
      have "fst (delete_task s uid tid) = r \<and> snd (delete_task s uid tid) = s'"
        using b i e by (simp add: x_delete split_beta)
      then have "(r, s') = delete_task s uid tid"
        by (auto simp: prod_eq_iff)
      then show ?thesis by (intro exI)
    qed
  qed
  then obtain tid where "(r, s') = delete_task s uid tid"
    by (elim exE)
  with t have "\<exists>tid. tool_name = ''delete_task'' \<and> (r, s') = delete_task s uid tid"
    by (intro exI conjI)
  then show ?thesis
    by (rule disjI2 [OF disjI2 [OF disjI2 [OF disjI1]]])
next
  assume t: "tool_name = ''update_task''"
  have e: "execute_tool clk isofmt s uid ''update_task'' a = (Inr r, s')"
    using assms(2) t by simp
  have "\<exists>tid ttl descr. (r, s') = update_task clk s uid tid ttl descr"
  proof (cases "bind_kwargs [''task_id'', ''title'', ''description''] [''task_id''] a")
    case (Inl x)
    with e show ?thesis by (simp add: x_update)
  next
    case b: (Inr kw)
    show ?thesis
    proof (cases "as_int (map_of kw ''task_id'')")
      case (Inl x)
      with b e show ?thesis by (simp add: x_update)
    next
      case i: (Inr tid)
      show ?thesis
      proof (cases "as_opt_str (map_of kw ''title'')")
        case (Inl x)
        with b i e show ?thesis by (simp add: x_update)
      next
        case n: (Inr ttl)
        show ?thesis
        proof (cases "as_opt_str (map_of kw ''description'')")
          case (Inl x)
          with b i n e show ?thesis by (simp add: x_update)
        next
          case d: (Inr descr)
          have "fst (update_task clk s uid tid ttl descr) = r
              \<and> snd (update_task clk s uid tid ttl descr) = s'"
            using b i n d e by (simp add: x_update split_beta)
          then have "(r, s') = update_task clk s uid tid ttl descr"
            by (auto simp: prod_eq_iff)
          then show ?thesis by (intro exI)
        qed
      qed
    qed
  qed
  then obtain tid ttl descr where "(r, s') = update_task clk s uid tid ttl descr"
    by (elim exE)
  with t have "\<exists>tid ttl descr. tool_name = ''update_task'' \<and> (r, s') = update_task clk s uid tid ttl descr"
    by (intro exI conjI)
  then show ?thesis
    by (rule disjI2 [OF disjI2 [OF disjI2 [OF disjI2]]])
qed

text \<open>
  C1, where the code departs from it: \<open>execute_tool\<close> with the empty argument mapping
  returns a result for \<open>list_tasks\<close> and for an unknown name only. The four tools with a
  required parameter raise \<open>TypeError\<close>, and a turn whose model sends \<open>add_task\<close> with
  malformed arguments ends in that exception.
\<close>

theorem empty_arguments_raise:
  "execute_tool clk isofmt s uid tool_name (PDict []) =
     (if tool_name \<notin> set tool_names
        then (Inr (PDict [(''error'', PStr (''Unknown tool: '' @ tool_name))]), s)
      else if tool_name = ''list_tasks''
        then (Inr (list_tasks isofmt s uid (PStr ''all'')), s)
      else if tool_name = ''add_task''
        then (Inl (TypeError (MissingArgument ''title'')), s)
      else (Inl (TypeError (MissingArgument ''task_id'')), s))
   \<and> fst (run_agent (demo_lib malformed_add) demo_world ''alice'' hello)
       = Inl (TypeError (MissingArgument ''title''))"
proof
  show "execute_tool clk isofmt s uid tool_name (PDict []) =
     (if tool_name \<notin> set tool_names
        then (Inr (PDict [(''error'', PStr (''Unknown tool: '' @ tool_name))]), s)
      else if tool_name = ''list_tasks''
        then (Inr (list_tasks isofmt s uid (PStr ''all'')), s)
      else if tool_name = ''add_task''
        then (Inl (TypeError (MissingArgument ''title'')), s)
      else (Inl (TypeError (MissingArgument ''task_id'')), s))"
  proof (cases "tool_name \<in> set tool_names")
    case False
    then show ?thesis
      by (simp add: e1)
  next
    case True
    then have "tool_name = ''add_task'' \<or> tool_name = ''list_tasks'' \<or> tool_name = ''complete_task''
        \<or> tool_name = ''delete_task'' \<or> tool_name = ''update_task''"
      unfolding tool_names_def by simp
    then show ?thesis
    proof (elim disjE)
      assume "tool_name = ''add_task''"
      with True show ?thesis by (simp add: e3)
    next
      assume "tool_name = ''list_tasks''"
      with True show ?thesis by (simp add: e2)
    next
      assume "tool_name = ''complete_task''"
      with True show ?thesis by (simp add: e4)
    next
      assume "tool_name = ''delete_task''"
      with True show ?thesis by (simp add: e5)
    next
      assume "tool_name = ''update_task''"
      with True show ?thesis by (simp add: e6)
    qed
  qed
  show "fst (run_agent (demo_lib malformed_add) demo_world ''alice'' hello)
       = Inl (TypeError (MissingArgument ''title''))"
    by (rule run_bad2)
qed

text \<open>
  C10: for a known tool, an argument mapping with the key \<open>user_id\<close> or \<open>session\<close> makes
  the call raise \<open>TypeError\<close> for a keyword given twice, the store untouched. Whatever the
  arguments are, \<open>execute_tool\<close> leaves the rows of every other owner as they were; what it
  returns or raises is the same on any two stores that agree on the caller's rows and on the
  next key, so no row of another owner is read; and a call of a known tool that returns is
  a run of that tool for the caller \<open>uid\<close>.
\<close>

theorem execute_tool_owner_scope:
  "(tool_name \<in> set tool_names \<and> k \<in> fst ` set kw \<and> (k = ''user_id'' \<or> k = ''session'')
      \<longrightarrow> (\<exists>k'. (k' = ''session'' \<or> k' = ''user_id'') \<and> k' \<in> fst ` set kw
             \<and> execute_tool clk isofmt s uid tool_name (PDict kw) = (Inl (TypeError (MultipleValues k')), s)))
   \<and> (wf_store s
      \<longrightarrow> others uid (snd (execute_tool clk isofmt s uid tool_name arguments)) = others uid s)
   \<and> (own uid s = own uid s2 \<and> next_id s = next_id s2
      \<longrightarrow> fst (execute_tool clk isofmt s uid tool_name arguments)
            = fst (execute_tool clk isofmt s2 uid tool_name arguments))
   \<and> (tool_name \<in> set tool_names \<and> execute_tool clk isofmt s uid tool_name arguments = (Inr r, s')
      \<longrightarrow> (\<exists>ttl descr. tool_name = ''add_task'' \<and> (r, s') = add_task clk s uid ttl descr)
        \<or> (\<exists>st. tool_name = ''list_tasks'' \<and> (r, s') = (list_tasks isofmt s uid st, s))
        \<or> (\<exists>tid. tool_name = ''complete_task'' \<and> (r, s') = complete_task clk s uid tid)
        \<or> (\<exists>tid. tool_name = ''delete_task'' \<and> (r, s') = delete_task s uid tid)
        \<or> (\<exists>tid ttl descr. tool_name = ''update_task'' \<and> (r, s') = update_task clk s uid tid ttl descr))"
proof -
  have p1: "tool_name \<in> set tool_names \<and> k \<in> fst ` set kw \<and> (k = ''user_id'' \<or> k = ''session'')
      \<longrightarrow> (\<exists>k'. (k' = ''session'' \<or> k' = ''user_id'') \<and> k' \<in> fst ` set kw
             \<and> execute_tool clk isofmt s uid tool_name (PDict kw) = (Inl (TypeError (MultipleValues k')), s))"
  proof (rule impI)
    assume a: "tool_name \<in> set tool_names \<and> k \<in> fst ` set kw \<and> (k = ''user_id'' \<or> k = ''session'')"
    then have t: "tool_name \<in> set tool_names" and m: "k \<in> fst ` set kw" and q: "k = ''session'' \<or> k = ''user_id''"
      by blast+
    from duplicate_keyword [OF m q] obtain k' where k': "k' = ''session'' \<or> k' = ''user_id''" "k' \<in> fst ` set kw"
        and b: "\<And>params required. bind_kwargs params required (PDict kw) = Inl (TypeError (MultipleValues k'))"
      by blast
    have "execute_tool clk isofmt s uid tool_name (PDict kw) = (Inl (TypeError (MultipleValues k')), s)"
      using t b by (rule execute_tool_bind_error)
    then show "\<exists>k'. (k' = ''session'' \<or> k' = ''user_id'') \<and> k' \<in> fst ` set kw
               \<and> execute_tool clk isofmt s uid tool_name (PDict kw) = (Inl (TypeError (MultipleValues k')), s)"
      using k' by blast
  qed
  have p2: "wf_store s
      \<longrightarrow> others uid (snd (execute_tool clk isofmt s uid tool_name arguments)) = others uid s"
    using others_execute_tool by (rule impI)
  have p3: "own uid s = own uid s2 \<and> next_id s = next_id s2
      \<longrightarrow> fst (execute_tool clk isofmt s uid tool_name arguments)
            = fst (execute_tool clk isofmt s2 uid tool_name arguments)"
  proof (rule impI)
    assume "own uid s = own uid s2 \<and> next_id s = next_id s2"
    then have "own uid s = own uid s2" and "next_id s = next_id s2"
      by simp_all
    then show "fst (execute_tool clk isofmt s uid tool_name arguments)
            = fst (execute_tool clk isofmt s2 uid tool_name arguments)"
      by (rule execute_tool_reads_own)
  qed
  have p4: "tool_name \<in> set tool_names \<and> execute_tool clk isofmt s uid tool_name arguments = (Inr r, s')
      \<longrightarrow> (\<exists>ttl descr. tool_name = ''add_task'' \<and> (r, s') = add_task clk s uid ttl descr)
        \<or> (\<exists>st. tool_name = ''list_tasks'' \<and> (r, s') = (list_tasks isofmt s uid st, s))
        \<or> (\<exists>tid. tool_name = ''complete_task'' \<and> (r, s') = complete_task clk s uid tid)
        \<or> (\<exists>tid. tool_name = ''delete_task'' \<and> (r, s') = delete_task s uid tid)
        \<or> (\<exists>tid ttl descr. tool_name = ''update_task'' \<and> (r, s') = update_task clk s uid tid ttl descr)"
  proof (rule impI)
    assume "tool_name \<in> set tool_names \<and> execute_tool clk isofmt s uid tool_name arguments = (Inr r, s')"
    then have "tool_name \<in> set tool_names" and "execute_tool clk isofmt s uid tool_name arguments = (Inr r, s')"
      by simp_all
    then show "(\<exists>ttl descr. tool_name = ''add_task'' \<and> (r, s') = add_task clk s uid ttl descr)
        \<or> (\<exists>st. tool_name = ''list_tasks'' \<and> (r, s') = (list_tasks isofmt s uid st, s))
        \<or> (\<exists>tid. tool_name = ''complete_task'' \<and> (r, s') = complete_task clk s uid tid)
        \<or> (\<exists>tid. tool_name = ''delete_task'' \<and> (r, s') = delete_task s uid tid)
        \<or> (\<exists>tid ttl descr. tool_name = ''update_task'' \<and> (r, s') = update_task clk s uid tid ttl descr)"
      by (rule execute_tool_runs_as_caller)
  qed
  show ?thesis
    using p1 p2 p3 p4 by (intro conjI)
qed

theorem execute_tool_owner_scope_witness:
  "''complete_task'' \<in> set tool_names
   \<and> ''user_id'' \<in> fst ` set [(''task_id'', PInt 2), (''user_id'', PStr ''bob'')]
   \<and> wf_store demo_store
   \<and> own ''alice'' demo_store = own ''alice'' (demo_store\<lparr>tasks := [tasks demo_store ! 0, tasks demo_store ! 2]\<rparr>)
   \<and> next_id demo_store = next_id (demo_store\<lparr>tasks := [tasks demo_store ! 0, tasks demo_store ! 2]\<rparr>)
   \<and> execute_tool (\<lambda>n. 100 + int n) (\<lambda>t. ''T'') demo_store ''alice'' ''complete_task'' (PDict [(''task_id'', PInt 2)])
       = (Inr (PDict [(''task_id'', PInt 2), (''status'', PStr ''error''), (''error'', PStr ''Task not found'')]),
          demo_store)
   \<and> (\<exists>k'. (k' = ''session'' \<or> k' = ''user_id'')
         \<and> execute_tool (\<lambda>n. 100 + int n) (\<lambda>t. ''T'') demo_store ''alice'' ''complete_task''
              (PDict [(''task_id'', PInt 2), (''user_id'', PStr ''bob'')])
            = (Inl (TypeError (MultipleValues k')), demo_store))
   \<and> others ''alice'' (snd (execute_tool (\<lambda>n. 100 + int n) (\<lambda>t. ''T'') demo_store ''alice'' ''complete_task''
              (PDict [(''task_id'', PInt 2)]))) = others ''alice'' demo_store
   \<and> fst (execute_tool (\<lambda>n. 100 + int n) (\<lambda>t. ''T'') demo_store ''alice'' ''complete_task''
              (PDict [(''task_id'', PInt 2)]))
       = fst (execute_tool (\<lambda>n. 100 + int n) (\<lambda>t. ''T'')
              (demo_store\<lparr>tasks := [tasks demo_store ! 0, tasks demo_store ! 2]\<rparr>) ''alice'' ''complete_task''
              (PDict [(''task_id'', PInt 2)]))
   \<and> (\<exists>tid. (PDict [(''task_id'', PInt 2), (''status'', PStr ''error''), (''error'', PStr ''Task not found'')],
               demo_store) = complete_task (\<lambda>n. 100 + int n) demo_store ''alice'' tid)"
proof -
  have t: "''complete_task'' \<in> set tool_names"
    by (simp add: tool_names_def)
  have m: "''user_id'' \<in> fst ` set [(''task_id'', PInt 2), (''user_id'', PStr ''bob'')]"
    by simp
  have w: "wf_store demo_store"
    by (simp add: wf_store_def demo_store_def)
  have o: "own ''alice'' demo_store = own ''alice'' (demo_store\<lparr>tasks := [tasks demo_store ! 0, tasks demo_store ! 2]\<rparr>)"
    by (simp add: own_def demo_store_def)
  have n: "next_id demo_store = next_id (demo_store\<lparr>tasks := [tasks demo_store ! 0, tasks demo_store ! 2]\<rparr>)"
    by simp
  have f: "first_task demo_store ''alice'' 2 = None"
    by (simp add: first_task_def demo_store_def)
  have e: "execute_tool (\<lambda>n. 100 + int n) (\<lambda>t. ''T'') demo_store ''alice'' ''complete_task'' (PDict [(''task_id'', PInt 2)])
       = (Inr (PDict [(''task_id'', PInt 2), (''status'', PStr ''error''), (''error'', PStr ''Task not found'')]),
          demo_store)"
    by (simp add: x_complete bind_kwargs_def complete_task_def f not_found_def)
  note a = execute_tool_owner_scope [where tool_name = "''complete_task''" and k = "''user_id''"
      and kw = "[(''task_id'', PInt 2), (''user_id'', PStr ''bob'')]" and clk = "\<lambda>n. 100 + int n"
      and isofmt = "\<lambda>t. ''T''" and s = demo_store and uid = "''alice''"
      and arguments = "PDict [(''task_id'', PInt 2)]"
      and ?s2.0 = "demo_store\<lparr>tasks := [tasks demo_store ! 0, tasks demo_store ! 2]\<rparr>"
      and r = "PDict [(''task_id'', PInt 2), (''status'', PStr ''error''), (''error'', PStr ''Task not found'')]"
      and s' = demo_store]
  have c1: "\<exists>k'. (k' = ''session'' \<or> k' = ''user_id'')
         \<and> execute_tool (\<lambda>n. 100 + int n) (\<lambda>t. ''T'') demo_store ''alice'' ''complete_task''
              (PDict [(''task_id'', PInt 2), (''user_id'', PStr ''bob'')])
            = (Inl (TypeError (MultipleValues k')), demo_store)"
    using a t m by blast
  have c2: "others ''alice'' (snd (execute_tool (\<lambda>n. 100 + int n) (\<lambda>t. ''T'') demo_store ''alice'' ''complete_task''
              (PDict [(''task_id'', PInt 2)]))) = others ''alice'' demo_store"
    using a w by blast
  have c3: "fst (execute_tool (\<lambda>n. 100 + int n) (\<lambda>t. ''T'') demo_store ''alice'' ''complete_task''
              (PDict [(''task_id'', PInt 2)]))
       = fst (execute_tool (\<lambda>n. 100 + int n) (\<lambda>t. ''T'')
              (demo_store\<lparr>tasks := [tasks demo_store ! 0, tasks demo_store ! 2]\<rparr>) ''alice'' ''complete_task''
              (PDict [(''task_id'', PInt 2)]))"
    using a o n by blast
  have c4: "\<exists>tid. (PDict [(''task_id'', PInt 2), (''status'', PStr ''error''), (''error'', PStr ''Task not found'')],
               demo_store) = complete_task (\<lambda>n. 100 + int n) demo_store ''alice'' tid"
    using a t e by simp
  show ?thesis
    using t m w o n e c1 c2 c3 c4 by (intro conjI)
qed

section \<open>Properties of the agent\<close>

lemma entries_append: "entries (xs @ ys) = entries xs @ entries ys"
  by (induction xs rule: entries.induct) simp_all

lemma requests_append: "requests (xs @ ys) = requests xs @ requests ys"
  by (induction xs rule: requests.induct) simp_all

lemma call_execute_tool_trace:
  assumes "call_execute_tool L w uid tool_name arguments = (r, w')"
  shows "\<exists>evs. trace w' = trace w @ evs \<and> requests evs = []
           \<and> entries evs = (case r of Inl e \<Rightarrow> [] | Inr v \<Rightarrow> [audit_entry tool_name arguments v])"
  using assms
  by (auto simp: call_execute_tool_def split: prod.splits sum.splits)

lemma execute_calls_trace:
  assumes "execute_calls L uid tcs msgs made w = (r, w')"
  shows "\<exists>evs. trace w' = trace w @ evs \<and> requests evs = []
           \<and> (case r of Inl e \<Rightarrow> True | Inr (msgs', made') \<Rightarrow> made' = made @ entries evs)"
  using assms
proof (induction tcs arbitrary: msgs made w)
  case Nil
  then show ?case by auto
next
  case (Cons tc tcs)
  define arguments where "arguments = (case json_loads L (tc_arguments tc) of None \<Rightarrow> PDict [] | Some a \<Rightarrow> a)"
  obtain r1 w1 where c: "call_execute_tool L w uid (tc_name tc) arguments = (r1, w1)"
    by (cases "call_execute_tool L w uid (tc_name tc) arguments") auto
  from call_execute_tool_trace [OF c] obtain evs1 where
    e1: "trace w1 = trace w @ evs1" "requests evs1 = []"
        "entries evs1 = (case r1 of Inl e \<Rightarrow> [] | Inr v \<Rightarrow> [audit_entry (tc_name tc) arguments v])"
    by blast
  show ?case
  proof (cases r1)
    case (Inl e)
    then have "r = Inl e" "w' = w1"
      using Cons.prems c by (simp_all add: arguments_def Let_def)
    then show ?thesis
      using e1 by auto
  next
    case (Inr result)
    then have rest: "execute_calls L uid tcs
        (msgs @ [PDict [(''role'', PStr ''tool''), (''tool_call_id'', PStr (tc_id tc)),
                        (''content'', PStr (json_dumps L result))]])
        (made @ [audit_entry (tc_name tc) arguments result]) w1 = (r, w')"
      using Cons.prems c by (simp add: arguments_def Let_def)
    from Cons.IH [OF rest] obtain evs2 where
      e2: "trace w' = trace w1 @ evs2" "requests evs2 = []"
          "(case r of Inl e \<Rightarrow> True | Inr (msgs', made') \<Rightarrow>
               made' = (made @ [audit_entry (tc_name tc) arguments result]) @ entries evs2)"
      by blast
    have "trace w' = trace w @ (evs1 @ evs2)"
      using e1(1) e2(1) by simp
    moreover have "requests (evs1 @ evs2) = []"
      using e1(2) e2(2) by (simp add: requests_append)
    moreover have "(case r of Inl e \<Rightarrow> True | Inr (msgs', made') \<Rightarrow> made' = made @ entries (evs1 @ evs2))"
      using e2(3) e1(3) Inr by (auto simp: entries_append split: sum.splits)
    ultimately show ?thesis
      by blast
  qed
qed

lemma agent_loop_trace:
  assumes "agent_loop L uid i n msgs made w = (r, w')"
  shows "\<exists>evs. trace w' = trace w @ evs \<and> requests evs = [i..<i + length (requests evs)]
           \<and> length (requests evs) \<le> n
           \<and> (case r of Inl e \<Rightarrow> True | Inr (answer, audit) \<Rightarrow> audit = made @ entries evs)"
  using assms
proof (induction n arbitrary: i msgs made w)
  case 0
  then show ?case by auto
next
  case (Suc n)
  define w1 where "w1 = w\<lparr>trace := trace w @ [Consulted i msgs]\<rparr>"
  show ?case
  proof (cases "create L i msgs")
    case (Inl e)
    then have "r = Inl e" "w' = w1"
      using Suc.prems by (simp_all add: w1_def Let_def)
    then have "trace w' = trace w @ [Consulted i msgs]"
      by (simp add: w1_def)
    then show ?thesis
      using \<open>r = Inl e\<close> by (intro exI [of _ "[Consulted i msgs]"]) simp
  next
    case (Inr am)
    show ?thesis
    proof (cases "am_tool_calls am = []")
      case True
      then have "w' = w1" "\<exists>answer. r = Inr (answer, made)"
        using Suc.prems Inr by (auto simp: w1_def Let_def)
      then show ?thesis
        by (intro exI [of _ "[Consulted i msgs]"]) (auto simp: w1_def)
    next
      case False
      obtain r2 w2 where x: "execute_calls L uid (am_tool_calls am) (msgs @ [assistant_turn am]) made w1 = (r2, w2)"
        by (cases "execute_calls L uid (am_tool_calls am) (msgs @ [assistant_turn am]) made w1") auto
      from execute_calls_trace [OF x] obtain evs2 where
        e2: "trace w2 = trace w1 @ evs2" "requests evs2 = []"
            "(case r2 of Inl e \<Rightarrow> True | Inr (msgs', made') \<Rightarrow> made' = made @ entries evs2)"
        by blast
      show ?thesis
      proof (cases r2)
        case (Inl e)
        then have "r = Inl e" "w' = w2"
          using Suc.prems \<open>create L i msgs = Inr am\<close> False x by (simp_all add: w1_def Let_def)
        then show ?thesis
          using e2 by (intro exI [of _ "Consulted i msgs # evs2"]) (simp add: w1_def)
      next
        case (Inr p)
        obtain msgs2 made2 where p: "p = (msgs2, made2)"
          by (cases p) auto
        have rest: "agent_loop L uid (Suc i) n msgs2 made2 w2 = (r, w')"
          using Suc.prems \<open>create L i msgs = Inr am\<close> False x Inr p by (simp add: w1_def Let_def)
        from Suc.IH [OF rest] obtain evs3 where
          e3: "trace w' = trace w2 @ evs3" "requests evs3 = [Suc i..<Suc i + length (requests evs3)]"
              "length (requests evs3) \<le> n"
              "(case r of Inl e \<Rightarrow> True | Inr (answer, audit) \<Rightarrow> audit = made2 @ entries evs3)"
          by blast
        have m2: "made2 = made @ entries evs2"
          using e2(3) Inr p by simp
        let ?evs = "Consulted i msgs # evs2 @ evs3"
        have "trace w' = trace w @ ?evs"
          using e3(1) e2(1) by (simp add: w1_def)
        moreover have "requests ?evs = [i..<i + length (requests ?evs)] \<and> length (requests ?evs) \<le> Suc n"
        proof -
          define k where "k = length (requests evs3)"
          have r3: "requests evs3 = [Suc i..<Suc i + k]"
            unfolding k_def by (rule e3(2))
          have c: "requests ?evs = i # requests evs3"
            using e2(2) by (simp add: requests_append)
          have u: "[i..<i + Suc k] = i # [Suc i..<i + Suc k]"
            by (rule upt_conv_Cons) simp
          have "requests ?evs = [i..<i + Suc k]"
            using c r3 u by simp
          moreover have "length (requests ?evs) = Suc k"
            using c by (simp add: k_def)
          ultimately show ?thesis
            using e3(3) by (simp add: k_def)
        qed
        moreover have "(case r of Inl e \<Rightarrow> True | Inr (answer, audit) \<Rightarrow> audit = made @ entries ?evs)"
          using e3(4) m2 by (auto simp: entries_append split: sum.splits)
        ultimately show ?thesis
          by blast
      qed
    qed
  qed
qed


lemma run_tool_trace:
  assumes "run_tool L w uid tool_name arguments response_text = (r, w')"
  shows "\<exists>evs. trace w' = trace w @ evs \<and> requests evs = []
           \<and> (case r of Inl e \<Rightarrow> True | Inr (answer, audit) \<Rightarrow> audit = entries evs \<and> length audit = 1)"
proof -
  obtain r1 w1 where c: "call_execute_tool L w uid tool_name (PDict arguments) = (r1, w1)"
    by (cases "call_execute_tool L w uid tool_name (PDict arguments)") auto
  from call_execute_tool_trace [OF c] obtain evs where
    e: "trace w1 = trace w @ evs" "requests evs = []"
       "entries evs = (case r1 of Inl e \<Rightarrow> [] | Inr v \<Rightarrow> [audit_entry tool_name (PDict arguments) v])"
    by blast
  have "w' = w1"
    using assms c by (auto simp: run_tool_def split: sum.splits)
  moreover have "case r of Inl e \<Rightarrow> True | Inr (answer, audit) \<Rightarrow> audit = entries evs \<and> length audit = 1"
    using assms c e(3) by (auto simp: run_tool_def split: sum.splits)
  ultimately show ?thesis
    using e(1,2) by blast
qed

lemma fp_ok_returned: "fp_ok w (returned (run_tool L w uid tool_name arguments response_text))"
proof -
  obtain r w' where x: "run_tool L w uid tool_name arguments response_text = (r, w')"
    by (cases "run_tool L w uid tool_name arguments response_text") auto
  from run_tool_trace [OF x] obtain evs where
    e: "trace w' = trace w @ evs" "requests evs = []"
       "case r of Inl e \<Rightarrow> True | Inr (answer, audit) \<Rightarrow> audit = entries evs \<and> length audit = 1"
    by blast
  show ?thesis
    unfolding fp_ok_def x returned_def using e
    by (intro exI [of _ evs]) (auto split: sum.splits)
qed

lemma fp_ok_declined: "fp_ok w (Inr None, w)"
  by (simp add: fp_ok_def)

lemma fp_ok_raised: "fp_ok w (Inl e, w)"
  by (simp add: fp_ok_def)

lemma fp_ok_update: "fp_ok w (fp_update L w uid utterance)"
  unfolding fp_update_def
  by (simp add: fp_ok_returned fp_ok_declined fp_ok_raised Let_def split: option.splits sum.splits)

lemma fp_ok_delete: "fp_ok w (fp_delete L w uid utterance lowered)"
  unfolding fp_delete_def
  by (simp add: fp_ok_returned fp_ok_update fp_ok_raised split: option.splits sum.splits)

lemma fp_ok_complete: "fp_ok w (fp_complete L w uid utterance lowered)"
  unfolding fp_complete_def
  by (simp add: fp_ok_returned fp_ok_delete fp_ok_raised split: option.splits sum.splits)

lemma fp_ok_list: "fp_ok w (fp_list L w uid utterance lowered)"
  unfolding fp_list_def Let_def
  by (simp add: fp_ok_returned fp_ok_complete)

lemma fp_ok_add: "fp_ok w (fp_add L w uid utterance lowered)"
  unfolding fp_add_def
  by (simp add: fp_ok_returned fp_ok_list fp_ok_raised Let_def split: option.splits sum.splits)

lemma fp_ok_fast_path_command: "fp_ok w (fast_path_command L w uid messages)"
  unfolding fast_path_command_def
  by (simp add: fp_ok_add fp_ok_declined Let_def split: option.splits)

lemma run_agent_trace:
  assumes "run_agent L w uid messages = (r, w')"
  shows "\<exists>evs. trace w' = trace w @ evs \<and> requests evs = [0..<length (requests evs)]
           \<and> length (requests evs) \<le> MAX_TOOL_ITERATIONS
           \<and> (case r of Inl e \<Rightarrow> True | Inr (answer, audit) \<Rightarrow> audit = entries evs)
           \<and> (fst (fast_path_command L w uid messages) = Inr None
               \<or> requests evs = [] \<and> (case r of Inl e \<Rightarrow> True | Inr (answer, audit) \<Rightarrow> length audit = 1))"
proof -
  obtain r0 w0 where f: "fast_path_command L w uid messages = (r0, w0)"
    by (cases "fast_path_command L w uid messages") auto
  have "fp_ok w (r0, w0)"
    using fp_ok_fast_path_command [of w L uid messages] by (simp add: f)
  then obtain evs0 where
    e0: "trace w0 = trace w @ evs0" "requests evs0 = []"
        "(case r0 of Inl e \<Rightarrow> True | Inr None \<Rightarrow> w0 = w
          | Inr (Some (answer, audit)) \<Rightarrow> audit = entries evs0 \<and> length audit = 1)"
    unfolding fp_ok_def fst_conv snd_conv by blast
  show ?thesis
  proof (cases r0)
    case (Inl e)
    then have "r = Inl e" "w' = w0"
      using assms f by (simp_all add: run_agent_def)
    then show ?thesis
      using e0 by (intro exI [of _ evs0]) simp
  next
    case (Inr m)
    show ?thesis
    proof (cases m)
      case None
      then have w0: "w0 = w"
        using e0(3) Inr by simp
      have "agent_loop L uid 0 MAX_TOOL_ITERATIONS (recent_openai_messages messages) [] w = (r, w')"
        using assms f Inr None w0 by (simp add: run_agent_def)
      from agent_loop_trace [OF this] obtain evs where
        e: "trace w' = trace w @ evs" "requests evs = [0..<0 + length (requests evs)]"
           "length (requests evs) \<le> MAX_TOOL_ITERATIONS"
           "(case r of Inl e \<Rightarrow> True | Inr (answer, audit) \<Rightarrow> audit = [] @ entries evs)"
        by blast
      have "(case r of Inl e \<Rightarrow> True | Inr (answer, audit) \<Rightarrow> audit = entries evs)"
        using e(4) by (auto split: sum.splits)
      moreover have "fst (fast_path_command L w uid messages) = Inr None"
        using f Inr None by simp
      ultimately show ?thesis
        using e(1,2,3) by (intro exI [of _ evs]) simp
    next
      case (Some p)
      obtain answer audit where p: "p = (answer, audit)"
        by (cases p) auto
      have "r = Inr (answer, audit)" "w' = w0"
        using assms f Inr Some p by (simp_all add: run_agent_def)
      moreover have "audit = entries evs0" "length audit = 1"
        using Inr Some p e0(3) by auto
      ultimately show ?thesis
        using e0(1,2) by (intro exI [of _ evs0]) simp
    qed
  qed
qed

lemma agent_loop_exhausts:
  assumes "\<And>i msgs. \<exists>am. create L i msgs = Inr am \<and> am_tool_calls am \<noteq> []"
    and "agent_loop L uid i n msgs made w = (Inr (answer, audit), w')"
  shows "answer = ''I've completed the requested operations. Is there anything else you'd like me to do?''
       \<and> length (requests (trace w')) = length (requests (trace w)) + n"
  using assms(2)
proof (induction n arbitrary: i msgs made w)
  case 0
  then show ?case by simp
next
  case (Suc n)
  define w1 where "w1 = w\<lparr>trace := trace w @ [Consulted i msgs]\<rparr>"
  obtain am where am: "create L i msgs = Inr am" "am_tool_calls am \<noteq> []"
    using assms(1) by blast
  obtain r2 w2 where x: "execute_calls L uid (am_tool_calls am) (msgs @ [assistant_turn am]) made w1 = (r2, w2)"
    by (cases "execute_calls L uid (am_tool_calls am) (msgs @ [assistant_turn am]) made w1") auto
  from execute_calls_trace [OF x] obtain evs2 where
    e2: "trace w2 = trace w1 @ evs2" "requests evs2 = []"
    by blast
  have step: "(case r2 of Inl e \<Rightarrow> (Inl e, w2) | Inr (msgs', made') \<Rightarrow> agent_loop L uid (Suc i) n msgs' made' w2)
              = (Inr (answer, audit), w')"
    using Suc.prems am x by (simp add: w1_def Let_def split: sum.splits prod.splits)
  then obtain msgs2 made2 where r2: "r2 = Inr (msgs2, made2)"
    by (cases r2) auto
  have rest: "agent_loop L uid (Suc i) n msgs2 made2 w2 = (Inr (answer, audit), w')"
    using step r2 by simp
  have "length (requests (trace w2)) = Suc (length (requests (trace w)))"
    using e2 by (simp add: w1_def requests_append)
  then show ?case
    using Suc.IH [OF rest] by simp
qed

lemma entries_explicit:
  "entries evs = concat (map (\<lambda>e. case e of Consulted i msgs \<Rightarrow> []
                       | Executed n a r \<Rightarrow> [PDict [(''name'', PStr n), (''arguments'', a), (''result'', r)]]) evs)"
  by (induction evs rule: entries.induct) (simp_all add: audit_entry_def)

lemma fast_path_declined_world:
  assumes "fst (fast_path_command L w uid messages) = Inr None"
  shows "fast_path_command L w uid messages = (Inr None, w)"
proof -
  have "fp_ok w (fast_path_command L w uid messages)"
    by (rule fp_ok_fast_path_command)
  then obtain evs where "(case fst (fast_path_command L w uid messages) of
           Inl e \<Rightarrow> True
         | Inr None \<Rightarrow> snd (fast_path_command L w uid messages) = w
         | Inr (Some (answer, audit)) \<Rightarrow> audit = entries evs \<and> length audit = 1)"
    unfolding fp_ok_def by blast
  then have "snd (fast_path_command L w uid messages) = w"
    using assms by simp
  then show ?thesis
    using assms by (metis prod.collapse)
qed

lemma always_calls_requests:
  "\<exists>am. create (demo_lib always_calls) i msgs = Inr am \<and> am_tool_calls am \<noteq> []"
  by (simp add: demo_lib_def always_calls_def)

lemma demo_declined: "fst (fast_path_command (demo_lib always_calls) demo_world ''alice'' hello) = Inr None"
  by code_simp

lemma demo_loop_returns:
  "fst (run_agent (demo_lib always_calls) demo_world ''alice'' hello) =
     Inr (''I've completed the requested operations. Is there anything else you'd like me to do?'',
          replicate 4 (PDict [(''name'', PStr ''noop''), (''arguments'', PDict []),
                              (''result'', PDict [(''error'', PStr ''Unknown tool: noop'')])]))"
  by code_simp

lemma demo_fast_matches: "fst (fast_path_command (demo_lib always_calls) demo_world ''alice'' show_tasks) \<noteq> Inr None"
  by code_simp

lemma demo_fast_returns:
  "fst (run_agent (demo_lib always_calls) demo_world ''alice'' show_tasks) =
     Inr (''Here are your tasks:\<newline>Done #3: pay rent\<newline>Todo #1: buy milk'',
          [PDict [(''name'', PStr ''list_tasks''), (''arguments'', PDict [(''status'', PStr ''all'')]),
                  (''result'', PList [PDict [(''id'', PInt 3), (''title'', PStr ''pay rent''), (''description'', PNone),
                     (''completed'', PBool True), (''created_at'', PStr ''T'')],
              PDict [(''id'', PInt 1), (''title'', PStr ''buy milk''), (''description'', PNone),
                     (''completed'', PBool False), (''created_at'', PStr ''T'')]])]])"
  by code_simp

text \<open>
  C4: in every run of \<open>run_agent\<close>, whatever the history and the model answer, the
  requests to the model are at most 4, the rounds 0, 1, ... in order. When the model asks
  for tools in every round and the run returns after the fast path declined, the requests
  are exactly the rounds 0 to 3, the answer is the generic acknowledgement and the audit
  trail holds the entries of the tool executions made.
\<close>

theorem agent_loop_round_ceiling:
  "(\<exists>evs. trace (snd (run_agent L w uid messages)) = trace w @ evs
          \<and> length (requests evs) \<le> 4 \<and> requests evs = [0..<length (requests evs)])
   \<and> ((\<forall>i msgs. \<exists>am. create L i msgs = Inr am \<and> am_tool_calls am \<noteq> [])
        \<and> fst (fast_path_command L w uid messages) = Inr None
        \<and> run_agent L w uid messages = (Inr (answer, audit), w')
      \<longrightarrow> answer = ''I've completed the requested operations. Is there anything else you'd like me to do?''
          \<and> (\<exists>evs. trace w' = trace w @ evs \<and> requests evs = [0, 1, 2, 3]
                 \<and> audit = concat (map (\<lambda>e. case e of Consulted i msgs \<Rightarrow> []
                       | Executed n a r \<Rightarrow> [PDict [(''name'', PStr n), (''arguments'', a), (''result'', r)]]) evs)))"
proof (rule conjI)
  obtain r w1 where x: "run_agent L w uid messages = (r, w1)"
    by (cases "run_agent L w uid messages") auto
  from run_agent_trace [OF x] obtain evs where
    "trace w1 = trace w @ evs" "requests evs = [0..<length (requests evs)]"
    "length (requests evs) \<le> MAX_TOOL_ITERATIONS"
    by blast
  then show "\<exists>evs. trace (snd (run_agent L w uid messages)) = trace w @ evs
          \<and> length (requests evs) \<le> 4 \<and> requests evs = [0..<length (requests evs)]"
    unfolding x MAX_TOOL_ITERATIONS_def by auto
next
  show "(\<forall>i msgs. \<exists>am. create L i msgs = Inr am \<and> am_tool_calls am \<noteq> [])
        \<and> fst (fast_path_command L w uid messages) = Inr None
        \<and> run_agent L w uid messages = (Inr (answer, audit), w')
      \<longrightarrow> answer = ''I've completed the requested operations. Is there anything else you'd like me to do?''
          \<and> (\<exists>evs. trace w' = trace w @ evs \<and> requests evs = [0, 1, 2, 3]
                 \<and> audit = concat (map (\<lambda>e. case e of Consulted i msgs \<Rightarrow> []
                       | Executed n a r \<Rightarrow> [PDict [(''name'', PStr n), (''arguments'', a), (''result'', r)]]) evs))"
  proof (rule impI)
    assume a: "(\<forall>i msgs. \<exists>am. create L i msgs = Inr am \<and> am_tool_calls am \<noteq> [])
        \<and> fst (fast_path_command L w uid messages) = Inr None
        \<and> run_agent L w uid messages = (Inr (answer, audit), w')"
    then have m: "\<And>i msgs. \<exists>am. create L i msgs = Inr am \<and> am_tool_calls am \<noteq> []"
      and d: "fst (fast_path_command L w uid messages) = Inr None"
      and x: "run_agent L w uid messages = (Inr (answer, audit), w')"
      by blast+
    have l: "agent_loop L uid 0 MAX_TOOL_ITERATIONS (recent_openai_messages messages) [] w = (Inr (answer, audit), w')"
      using x fast_path_declined_world [OF d] by (simp add: run_agent_def)
    from agent_loop_exhausts [OF m l]
    have ans: "answer = ''I've completed the requested operations. Is there anything else you'd like me to do?''"
      and n: "length (requests (trace w')) = length (requests (trace w)) + MAX_TOOL_ITERATIONS"
      by blast+
    from agent_loop_trace [OF l] obtain evs where
      e: "trace w' = trace w @ evs" "audit = [] @ entries evs" "requests evs = [0..<0 + length (requests evs)]"
      by auto
    have "length (requests evs) = 4"
      using n e(1) by (simp add: requests_append MAX_TOOL_ITERATIONS_def)
    then have "requests evs = [0..<4]"
      using e(3) by simp
    then have "requests evs = [0, 1, 2, 3]"
      by (simp add: upt_rec)
    moreover have "audit = concat (map (\<lambda>e. case e of Consulted i msgs \<Rightarrow> []
                       | Executed n a r \<Rightarrow> [PDict [(''name'', PStr n), (''arguments'', a), (''result'', r)]]) evs)"
      using e(2) entries_explicit [of evs] by simp
    ultimately show "answer = ''I've completed the requested operations. Is there anything else you'd like me to do?''
          \<and> (\<exists>evs. trace w' = trace w @ evs \<and> requests evs = [0, 1, 2, 3]
                 \<and> audit = concat (map (\<lambda>e. case e of Consulted i msgs \<Rightarrow> []
                       | Executed n a r \<Rightarrow> [PDict [(''name'', PStr n), (''arguments'', a), (''result'', r)]]) evs))"
      using ans e(1) by blast
  qed
qed

theorem agent_loop_round_ceiling_witness:
  "(\<forall>i msgs. \<exists>am. create (demo_lib always_calls) i msgs = Inr am \<and> am_tool_calls am \<noteq> [])
   \<and> fst (fast_path_command (demo_lib always_calls) demo_world ''alice'' hello) = Inr None
   \<and> (\<exists>w'. run_agent (demo_lib always_calls) demo_world ''alice'' hello =
          (Inr (''I've completed the requested operations. Is there anything else you'd like me to do?'',
                replicate 4 (PDict [(''name'', PStr ''noop''), (''arguments'', PDict []),
                                    (''result'', PDict [(''error'', PStr ''Unknown tool: noop'')])])), w')
        \<and> (\<exists>evs. trace w' = trace demo_world @ evs \<and> requests evs = [0, 1, 2, 3]
               \<and> replicate 4 (PDict [(''name'', PStr ''noop''), (''arguments'', PDict []),
                                    (''result'', PDict [(''error'', PStr ''Unknown tool: noop'')])])
                   = concat (map (\<lambda>e. case e of Consulted i msgs \<Rightarrow> []
                       | Executed n a r \<Rightarrow> [PDict [(''name'', PStr n), (''arguments'', a), (''result'', r)]]) evs)))"
proof -
  obtain r w' where x: "run_agent (demo_lib always_calls) demo_world ''alice'' hello = (r, w')"
    by (cases "run_agent (demo_lib always_calls) demo_world ''alice'' hello") auto
  have r: "r = Inr (''I've completed the requested operations. Is there anything else you'd like me to do?'',
                replicate 4 (PDict [(''name'', PStr ''noop''), (''arguments'', PDict []),
                                    (''result'', PDict [(''error'', PStr ''Unknown tool: noop'')])]))"
    using demo_loop_returns unfolding x by simp
  have h: "(\<forall>i msgs. \<exists>am. create (demo_lib always_calls) i msgs = Inr am \<and> am_tool_calls am \<noteq> [])"
    using always_calls_requests by blast
  note t = agent_loop_round_ceiling [of "demo_lib always_calls" demo_world "''alice''" hello
      "''I've completed the requested operations. Is there anything else you'd like me to do?''"
      "replicate 4 (PDict [(''name'', PStr ''noop''), (''arguments'', PDict []),
                                    (''result'', PDict [(''error'', PStr ''Unknown tool: noop'')])])" w']
  have x': "run_agent (demo_lib always_calls) demo_world ''alice'' hello =
          (Inr (''I've completed the requested operations. Is there anything else you'd like me to do?'',
                replicate 4 (PDict [(''name'', PStr ''noop''), (''arguments'', PDict []),
                                    (''result'', PDict [(''error'', PStr ''Unknown tool: noop'')])])), w')"
    using x r by simp
  have c: "\<exists>evs. trace w' = trace demo_world @ evs \<and> requests evs = [0, 1, 2, 3]
               \<and> replicate 4 (PDict [(''name'', PStr ''noop''), (''arguments'', PDict []),
                                    (''result'', PDict [(''error'', PStr ''Unknown tool: noop'')])])
                   = concat (map (\<lambda>e. case e of Consulted i msgs \<Rightarrow> []
                       | Executed n a r \<Rightarrow> [PDict [(''name'', PStr n), (''arguments'', a), (''result'', r)]]) evs)"
    using t h demo_declined x' by blast
  show ?thesis
    using h demo_declined x' c by blast
qed

text \<open>
  C5: when \<open>run_agent\<close> returns, its audit trail is one \<open>{name, arguments, result}\<close>
  entry for each tool execution of the run, in the order of execution; when the fast path
  matched, that is one entry and no request to the model was made.
\<close>

theorem audit_trail_in_execution_order:
  "run_agent L w uid messages = (Inr (answer, audit), w')
   \<longrightarrow> (\<exists>evs. trace w' = trace w @ evs
          \<and> audit = concat (map (\<lambda>e. case e of Consulted i msgs \<Rightarrow> []
                       | Executed n a r \<Rightarrow> [PDict [(''name'', PStr n), (''arguments'', a), (''result'', r)]]) evs)
          \<and> (fst (fast_path_command L w uid messages) \<noteq> Inr None
              \<longrightarrow> length audit = 1 \<and> requests evs = []))"
proof
  assume x: "run_agent L w uid messages = (Inr (answer, audit), w')"
  from run_agent_trace [OF x] obtain evs where
    e: "trace w' = trace w @ evs" "audit = entries evs"
       "fst (fast_path_command L w uid messages) = Inr None \<or> requests evs = [] \<and> length audit = 1"
    by auto
  have "audit = concat (map (\<lambda>e. case e of Consulted i msgs \<Rightarrow> []
                       | Executed n a r \<Rightarrow> [PDict [(''name'', PStr n), (''arguments'', a), (''result'', r)]]) evs)"
    using e(2) entries_explicit [of evs] by simp
  then show "\<exists>evs. trace w' = trace w @ evs
          \<and> audit = concat (map (\<lambda>e. case e of Consulted i msgs \<Rightarrow> []
                       | Executed n a r \<Rightarrow> [PDict [(''name'', PStr n), (''arguments'', a), (''result'', r)]]) evs)
          \<and> (fst (fast_path_command L w uid messages) \<noteq> Inr None
              \<longrightarrow> length audit = 1 \<and> requests evs = [])"
    using e(1,3) by blast
qed

theorem audit_trail_in_execution_order_witness:
  "fst (fast_path_command (demo_lib always_calls) demo_world ''alice'' show_tasks) \<noteq> Inr None
   \<and> (\<exists>w'. run_agent (demo_lib always_calls) demo_world ''alice'' show_tasks =
          (Inr (''Here are your tasks:\<newline>Done #3: pay rent\<newline>Todo #1: buy milk'',
                [PDict [(''name'', PStr ''list_tasks''), (''arguments'', PDict [(''status'', PStr ''all'')]),
                  (''result'', PList [PDict [(''id'', PInt 3), (''title'', PStr ''pay rent''), (''description'', PNone),
                     (''completed'', PBool True), (''created_at'', PStr ''T'')],
              PDict [(''id'', PInt 1), (''title'', PStr ''buy milk''), (''description'', PNone),
                     (''completed'', PBool False), (''created_at'', PStr ''T'')]])]]), w')
        \<and> (\<exists>evs. trace w' = trace demo_world @ evs
               \<and> [PDict [(''name'', PStr ''list_tasks''), (''arguments'', PDict [(''status'', PStr ''all'')]),
                  (''result'', PList [PDict [(''id'', PInt 3), (''title'', PStr ''pay rent''), (''description'', PNone),
                     (''completed'', PBool True), (''created_at'', PStr ''T'')],
              PDict [(''id'', PInt 1), (''title'', PStr ''buy milk''), (''description'', PNone),
                     (''completed'', PBool False), (''created_at'', PStr ''T'')]])]]
                   = concat (map (\<lambda>e. case e of Consulted i msgs \<Rightarrow> []
                       | Executed n a r \<Rightarrow> [PDict [(''name'', PStr n), (''arguments'', a), (''result'', r)]]) evs)
               \<and> requests evs = []))
   \<and> (\<exists>w'. run_agent (demo_lib always_calls) demo_world ''alice'' hello =
          (Inr (''I've completed the requested operations. Is there anything else you'd like me to do?'',
                replicate 4 (PDict [(''name'', PStr ''noop''), (''arguments'', PDict []),
                                    (''result'', PDict [(''error'', PStr ''Unknown tool: noop'')])])), w')
        \<and> (\<exists>evs. trace w' = trace demo_world @ evs
               \<and> replicate 4 (PDict [(''name'', PStr ''noop''), (''arguments'', PDict []),
                                    (''result'', PDict [(''error'', PStr ''Unknown tool: noop'')])])
                   = concat (map (\<lambda>e. case e of Consulted i msgs \<Rightarrow> []
                       | Executed n a r \<Rightarrow> [PDict [(''name'', PStr n), (''arguments'', a), (''result'', r)]]) evs)))"
proof -
  define w1 where "w1 = snd (run_agent (demo_lib always_calls) demo_world ''alice'' show_tasks)"
  define w2 where "w2 = snd (run_agent (demo_lib always_calls) demo_world ''alice'' hello)"
  have x1: "run_agent (demo_lib always_calls) demo_world ''alice'' show_tasks =
          (Inr (''Here are your tasks:\<newline>Done #3: pay rent\<newline>Todo #1: buy milk'',
                [PDict [(''name'', PStr ''list_tasks''), (''arguments'', PDict [(''status'', PStr ''all'')]),
                  (''result'', PList [PDict [(''id'', PInt 3), (''title'', PStr ''pay rent''), (''description'', PNone),
                     (''completed'', PBool True), (''created_at'', PStr ''T'')],
              PDict [(''id'', PInt 1), (''title'', PStr ''buy milk''), (''description'', PNone),
                     (''completed'', PBool False), (''created_at'', PStr ''T'')]])]]), w1)"
    unfolding w1_def using demo_fast_returns by (simp add: prod_eq_iff)
  have x2: "run_agent (demo_lib always_calls) demo_world ''alice'' hello =
          (Inr (''I've completed the requested operations. Is there anything else you'd like me to do?'',
                replicate 4 (PDict [(''name'', PStr ''noop''), (''arguments'', PDict []),
                                    (''result'', PDict [(''error'', PStr ''Unknown tool: noop'')])])), w2)"
    unfolding w2_def using demo_loop_returns by (simp add: prod_eq_iff)
  note t1 = audit_trail_in_execution_order [of "demo_lib always_calls" demo_world "''alice''" show_tasks
      "''Here are your tasks:\<newline>Done #3: pay rent\<newline>Todo #1: buy milk''"
      "[PDict [(''name'', PStr ''list_tasks''), (''arguments'', PDict [(''status'', PStr ''all'')]),
                  (''result'', PList [PDict [(''id'', PInt 3), (''title'', PStr ''pay rent''), (''description'', PNone),
                     (''completed'', PBool True), (''created_at'', PStr ''T'')],
              PDict [(''id'', PInt 1), (''title'', PStr ''buy milk''), (''description'', PNone),
                     (''completed'', PBool False), (''created_at'', PStr ''T'')]])]]" w1]
  note t2 = audit_trail_in_execution_order [of "demo_lib always_calls" demo_world "''alice''" hello
      "''I've completed the requested operations. Is there anything else you'd like me to do?''"
      "replicate 4 (PDict [(''name'', PStr ''noop''), (''arguments'', PDict []),
                                    (''result'', PDict [(''error'', PStr ''Unknown tool: noop'')])])" w2]
  note ex1 = mp [OF t1 x1]
  note ex2 = mp [OF t2 x2]
  from ex1 obtain evs1 where e1: "trace w1 = trace demo_world @ evs1"
      "[PDict [(''name'', PStr ''list_tasks''), (''arguments'', PDict [(''status'', PStr ''all'')]),
                  (''result'', PList [PDict [(''id'', PInt 3), (''title'', PStr ''pay rent''), (''description'', PNone),
                     (''completed'', PBool True), (''created_at'', PStr ''T'')],
              PDict [(''id'', PInt 1), (''title'', PStr ''buy milk''), (''description'', PNone),
                     (''completed'', PBool False), (''created_at'', PStr ''T'')]])]]
         = concat (map (\<lambda>e. case e of Consulted i msgs \<Rightarrow> []
                       | Executed n a r \<Rightarrow> [PDict [(''name'', PStr n), (''arguments'', a), (''result'', r)]]) evs1)"
      "fst (fast_path_command (demo_lib always_calls) demo_world ''alice'' show_tasks) \<noteq> Inr None
         \<longrightarrow> length [PDict [(''name'', PStr ''list_tasks''), (''arguments'', PDict [(''status'', PStr ''all'')]),
                  (''result'', PList [PDict [(''id'', PInt 3), (''title'', PStr ''pay rent''), (''description'', PNone),
                     (''completed'', PBool True), (''created_at'', PStr ''T'')],
              PDict [(''id'', PInt 1), (''title'', PStr ''buy milk''), (''description'', PNone),
                     (''completed'', PBool False), (''created_at'', PStr ''T'')]])]] = 1 \<and> requests evs1 = []"
    by (elim exE conjE)
  note r1 = mp [OF e1(3) demo_fast_matches, THEN conjunct2]
  from ex2 obtain evs2 where e2: "trace w2 = trace demo_world @ evs2"
      "replicate 4 (PDict [(''name'', PStr ''noop''), (''arguments'', PDict []),
                                    (''result'', PDict [(''error'', PStr ''Unknown tool: noop'')])])
         = concat (map (\<lambda>e. case e of Consulted i msgs \<Rightarrow> []
                       | Executed n a r \<Rightarrow> [PDict [(''name'', PStr n), (''arguments'', a), (''result'', r)]]) evs2)"
    by (elim exE conjE)
  have c1: "\<exists>evs. trace w1 = trace demo_world @ evs
               \<and> [PDict [(''name'', PStr ''list_tasks''), (''arguments'', PDict [(''status'', PStr ''all'')]),
                  (''result'', PList [PDict [(''id'', PInt 3), (''title'', PStr ''pay rent''), (''description'', PNone),
                     (''completed'', PBool True), (''created_at'', PStr ''T'')],
              PDict [(''id'', PInt 1), (''title'', PStr ''buy milk''), (''description'', PNone),
                     (''completed'', PBool False), (''created_at'', PStr ''T'')]])]]
                   = concat (map (\<lambda>e. case e of Consulted i msgs \<Rightarrow> []
                       | Executed n a r \<Rightarrow> [PDict [(''name'', PStr n), (''arguments'', a), (''result'', r)]]) evs)
               \<and> requests evs = []"
    by (rule exI [of _ evs1]) (intro conjI e1(1) e1(2) r1)
  have c2: "\<exists>evs. trace w2 = trace demo_world @ evs
               \<and> replicate 4 (PDict [(''name'', PStr ''noop''), (''arguments'', PDict []),
                                    (''result'', PDict [(''error'', PStr ''Unknown tool: noop'')])])
                   = concat (map (\<lambda>e. case e of Consulted i msgs \<Rightarrow> []
                       | Executed n a r \<Rightarrow> [PDict [(''name'', PStr n), (''arguments'', a), (''result'', r)]]) evs)"
    by (rule exI [of _ evs2]) (intro conjI e2(1) e2(2))
  have p1: "\<exists>w'. run_agent (demo_lib always_calls) demo_world ''alice'' show_tasks =
          (Inr (''Here are your tasks:\<newline>Done #3: pay rent\<newline>Todo #1: buy milk'',
                [PDict [(''name'', PStr ''list_tasks''), (''arguments'', PDict [(''status'', PStr ''all'')]),
                  (''result'', PList [PDict [(''id'', PInt 3), (''title'', PStr ''pay rent''), (''description'', PNone),
                     (''completed'', PBool True), (''created_at'', PStr ''T'')],
              PDict [(''id'', PInt 1), (''title'', PStr ''buy milk''), (''description'', PNone),
                     (''completed'', PBool False), (''created_at'', PStr ''T'')]])]]), w')
        \<and> (\<exists>evs. trace w' = trace demo_world @ evs
               \<and> [PDict [(''name'', PStr ''list_tasks''), (''arguments'', PDict [(''status'', PStr ''all'')]),
                  (''result'', PList [PDict [(''id'', PInt 3), (''title'', PStr ''pay rent''), (''description'', PNone),
                     (''completed'', PBool True), (''created_at'', PStr ''T'')],
              PDict [(''id'', PInt 1), (''title'', PStr ''buy milk''), (''description'', PNone),
                     (''completed'', PBool False), (''created_at'', PStr ''T'')]])]]
                   = concat (map (\<lambda>e. case e of Consulted i msgs \<Rightarrow> []
                       | Executed n a r \<Rightarrow> [PDict [(''name'', PStr n), (''arguments'', a), (''result'', r)]]) evs)
               \<and> requests evs = [])"
    by (rule exI [of _ w1]) (rule conjI [OF x1 c1])
  have p2: "\<exists>w'. run_agent (demo_lib always_calls) demo_world ''alice'' hello =
          (Inr (''I've completed the requested operations. Is there anything else you'd like me to do?'',
                replicate 4 (PDict [(''name'', PStr ''noop''), (''arguments'', PDict []),
                                    (''result'', PDict [(''error'', PStr ''Unknown tool: noop'')])])), w')
        \<and> (\<exists>evs. trace w' = trace demo_world @ evs
               \<and> replicate 4 (PDict [(''name'', PStr ''noop''), (''arguments'', PDict []),
                                    (''result'', PDict [(''error'', PStr ''Unknown tool: noop'')])])
                   = concat (map (\<lambda>e. case e of Consulted i msgs \<Rightarrow> []
                       | Executed n a r \<Rightarrow> [PDict [(''name'', PStr n), (''arguments'', a), (''result'', r)]]) evs))"
    by (rule exI [of _ w2]) (rule conjI [OF x2 c2])
  show ?thesis
    by (rule conjI [OF demo_fast_matches conjI [OF p1 p2]])
qed

lemma task_line_summary:
  "task_line (task_summary isofmt t) =
     Inr ((if completed t then ''Done'' else ''Todo'') @ '' #'' @ str_int (id' t) @ '': '' @ title t)"
  by (simp add: task_line_def task_summary_def get_of_def dict_get_def and_then_def)

lemma map_err_task_line:
  "map_err task_line (map (task_summary isofmt) xs) =
     Inr (map (\<lambda>t. (if completed t then ''Done'' else ''Todo'') @ '' #'' @ str_int (id' t) @ '': '' @ title t) xs)"
  by (induction xs) (simp_all add: and_then_def task_line_summary)

lemma list_response_summaries:
  "list_response (PList (map (task_summary isofmt) rows)) =
     Inr (if rows = [] then ''You don't have any matching tasks yet.''
               else ''Here are your tasks:\<newline>'' @
                    join ''\<newline>''
                      (map (\<lambda>t. (if completed t then ''Done'' else ''Todo'') @ '' #'' @ str_int (id' t) @ '': '' @ title t) (take 10 rows)
                       @ (if length rows > 10
                          then [''...and '' @ str_int (int (length rows) - 10) @ '' more.'']
                          else [])))"
  unfolding list_response_def Let_def
  by (simp add: take_map map_err_task_line and_then_def)

lemma call_list_tasks:
  "call_execute_tool L w uid ''list_tasks'' (PDict [(''status'', PStr st)]) =
     (Inr (list_tasks (isoformat L) (db w) uid (PStr st)),
      w\<lparr>db := db w, trace := trace w @ [Executed ''list_tasks'' (PDict [(''status'', PStr st)])
                                             (list_tasks (isoformat L) (db w) uid (PStr st))]\<rparr>)"
  by (simp add: call_execute_tool_def x_list bind_kwargs_def)

lemma demo_list: "map_sum id fst (fst (run_tool (demo_lib always_calls) demo_world ''alice'' ''list_tasks'' [(''status'', PStr ''all'')] None))
    = Inr ''Here are your tasks:\<newline>Done #3: pay rent\<newline>Todo #1: buy milk''"
  by code_simp

lemma demo_list_empty: "map_sum id fst (fst (run_tool (demo_lib always_calls) demo_world ''carol'' ''list_tasks'' [(''status'', PStr ''all'')] None))
    = Inr ''You don't have any matching tasks yet.''"
  by code_simp

lemma demo_list_long: "map_sum id fst (fst (run_tool (demo_lib always_calls) busy_world ''alice'' ''list_tasks'' [(''status'', PStr ''all'')] None))
    = Inr ''Here are your tasks:\<newline>Todo #12: t\<newline>Todo #11: t\<newline>Todo #10: t\<newline>Todo #9: t\<newline>Todo #8: t\<newline>Todo #7: t\<newline>Todo #6: t\<newline>Done #5: t\<newline>Todo #4: t\<newline>Todo #3: t\<newline>...and 2 more.''"
  by code_simp

lemma busy_count: "length (select_tasks busy_store ''alice'' (PStr ''all'')) = 12"
  by code_simp

lemma str_int_2: "str_int 2 = ''2''"
  by code_simp

text \<open>
  C7: the sentence of the fast path for \<open>list_tasks\<close>, from the rows the tool returned.
  No row gives "You don't have any matching tasks yet."; otherwise the header is followed by
  one line \<open>Todo/Done #id: title\<close> for each of the first ten rows and, when there are more
  than ten, by the line "...and N more." with N the number of rows less ten.
\<close>

theorem fast_path_list_rendering:
  "\<exists>rows :: task list.
      list_tasks (isoformat L) (db w) uid (PStr st) = PList (map (\<lambda>t. PDict [(''id'', PInt (id' t)),
                                (''title'', PStr (title t)),
                                (''description'', (case description t of None \<Rightarrow> PNone | Some d \<Rightarrow> PStr d)),
                                (''completed'', PBool (completed t)),
                                (''created_at'', PStr (isoformat L (created_at t)))]) rows)
      \<and> fst (run_tool L w uid ''list_tasks'' [(''status'', PStr st)] None) =
          Inr ((if rows = [] then ''You don't have any matching tasks yet.''
               else ''Here are your tasks:\<newline>'' @
                    join ''\<newline>''
                      (map (\<lambda>t. (if completed t then ''Done'' else ''Todo'') @ '' #'' @ str_int (id' t) @ '': '' @ title t) (take 10 rows)
                       @ (if length rows > 10
                          then [''...and '' @ str_int (int (length rows) - 10) @ '' more.'']
                          else []))),
               [PDict [(''name'', PStr ''list_tasks''), (''arguments'', PDict [(''status'', PStr st)]),
                       (''result'', list_tasks (isoformat L) (db w) uid (PStr st))]])"
proof -
  define rows where "rows = select_tasks (db w) uid (PStr st)"
  have a: "list_tasks (isoformat L) (db w) uid (PStr st) = PList (map (task_summary (isoformat L)) rows)"
    by (simp add: list_tasks_def rows_def)
  have b: "list_tasks (isoformat L) (db w) uid (PStr st) = PList (map (\<lambda>t. PDict [(''id'', PInt (id' t)),
                                (''title'', PStr (title t)),
                                (''description'', (case description t of None \<Rightarrow> PNone | Some d \<Rightarrow> PStr d)),
                                (''completed'', PBool (completed t)),
                                (''created_at'', PStr (isoformat L (created_at t)))]) rows)"
    by (simp add: a task_summary_def)
  have r: "list_response (PList (map (task_summary (isoformat L)) rows)) =
     Inr (if rows = [] then ''You don't have any matching tasks yet.''
               else ''Here are your tasks:\<newline>'' @
                    join ''\<newline>''
                      (map (\<lambda>t. (if completed t then ''Done'' else ''Todo'') @ '' #'' @ str_int (id' t) @ '': '' @ title t) (take 10 rows)
                       @ (if length rows > 10
                          then [''...and '' @ str_int (int (length rows) - 10) @ '' more.'']
                          else [])))"
    by (rule list_response_summaries)
  have f: "fst (run_tool L w uid ''list_tasks'' [(''status'', PStr st)] None) =
          Inr ((if rows = [] then ''You don't have any matching tasks yet.''
               else ''Here are your tasks:\<newline>'' @
                    join ''\<newline>''
                      (map (\<lambda>t. (if completed t then ''Done'' else ''Todo'') @ '' #'' @ str_int (id' t) @ '': '' @ title t) (take 10 rows)
                       @ (if length rows > 10
                          then [''...and '' @ str_int (int (length rows) - 10) @ '' more.'']
                          else []))),
               [PDict [(''name'', PStr ''list_tasks''), (''arguments'', PDict [(''status'', PStr st)]),
                       (''result'', list_tasks (isoformat L) (db w) uid (PStr st))]])"
    unfolding run_tool_def call_list_tasks
    by (simp add: a r audit_entry_def)
  show ?thesis
    by (rule exI [of _ rows]) (rule conjI [OF b f])
qed

theorem fast_path_list_rendering_witness:
  "(\<exists>rows :: task list.
      list_tasks (\<lambda>t. ''T'') busy_store ''alice'' (PStr ''all'') = PList (map (\<lambda>t. PDict [(''id'', PInt (id' t)),
                                (''title'', PStr (title t)),
                                (''description'', (case description t of None \<Rightarrow> PNone | Some d \<Rightarrow> PStr d)),
                                (''completed'', PBool (completed t)),
                                (''created_at'', PStr ''T'')]) rows)
      \<and> length rows = 12
      \<and> map_sum id fst (fst (run_tool (demo_lib always_calls) busy_world ''alice'' ''list_tasks'' [(''status'', PStr ''all'')] None)) =
          Inr (''Here are your tasks:\<newline>'' @
                    join ''\<newline>''
                      (map (\<lambda>t. (if completed t then ''Done'' else ''Todo'') @ '' #'' @ str_int (id' t) @ '': '' @ title t) (take 10 rows)
                       @ [''...and 2 more.''])))
   \<and> map_sum id fst (fst (run_tool (demo_lib always_calls) busy_world ''alice'' ''list_tasks'' [(''status'', PStr ''all'')] None))
       = Inr ''Here are your tasks:\<newline>Todo #12: t\<newline>Todo #11: t\<newline>Todo #10: t\<newline>Todo #9: t\<newline>Todo #8: t\<newline>Todo #7: t\<newline>Todo #6: t\<newline>Done #5: t\<newline>Todo #4: t\<newline>Todo #3: t\<newline>...and 2 more.''
   \<and> map_sum id fst (fst (run_tool (demo_lib always_calls) demo_world ''alice'' ''list_tasks'' [(''status'', PStr ''all'')] None))
       = Inr ''Here are your tasks:\<newline>Done #3: pay rent\<newline>Todo #1: buy milk''
   \<and> map_sum id fst (fst (run_tool (demo_lib always_calls) demo_world ''carol'' ''list_tasks'' [(''status'', PStr ''all'')] None))
       = Inr ''You don't have any matching tasks yet.''"
proof -
  have i: "isoformat (demo_lib always_calls) = (\<lambda>t. ''T'')" and d: "db busy_world = busy_store"
    by (simp_all add: demo_lib_def busy_world_def)
  note t = fast_path_list_rendering [of "demo_lib always_calls" busy_world "''alice''" "''all''", unfolded i d]
  from t obtain rows :: "task list" where
    a: "list_tasks (\<lambda>t. ''T'') busy_store ''alice'' (PStr ''all'') = PList (map (\<lambda>t. PDict [(''id'', PInt (id' t)),
                                (''title'', PStr (title t)),
                                (''description'', (case description t of None \<Rightarrow> PNone | Some d \<Rightarrow> PStr d)),
                                (''completed'', PBool (completed t)),
                                (''created_at'', PStr ''T'')]) rows)"
    and b: "fst (run_tool (demo_lib always_calls) busy_world ''alice'' ''list_tasks'' [(''status'', PStr ''all'')] None) =
          Inr ((if rows = [] then ''You don't have any matching tasks yet.''
               else ''Here are your tasks:\<newline>'' @
                    join ''\<newline>''
                      (map (\<lambda>t. (if completed t then ''Done'' else ''Todo'') @ '' #'' @ str_int (id' t) @ '': '' @ title t) (take 10 rows)
                       @ (if length rows > 10
                          then [''...and '' @ str_int (int (length rows) - 10) @ '' more.'']
                          else []))),
               [PDict [(''name'', PStr ''list_tasks''), (''arguments'', PDict [(''status'', PStr ''all'')]),
                       (''result'', list_tasks (\<lambda>t. ''T'') busy_store ''alice'' (PStr ''all''))]])"
    by (elim exE conjE)
  have "map (task_summary (\<lambda>t. ''T'')) (select_tasks busy_store ''alice'' (PStr ''all'')) =
        map (\<lambda>t. PDict [(''id'', PInt (id' t)),
                                (''title'', PStr (title t)),
                                (''description'', (case description t of None \<Rightarrow> PNone | Some d \<Rightarrow> PStr d)),
                                (''completed'', PBool (completed t)),
                                (''created_at'', PStr ''T'')]) rows"
    using a by (simp add: list_tasks_def)
  from arg_cong [OF this, of length] have n: "length rows = 12"
    by (simp add: busy_count)
  have ne: "rows \<noteq> []"
    using n by auto
  have c: "map_sum id fst (fst (run_tool (demo_lib always_calls) busy_world ''alice'' ''list_tasks'' [(''status'', PStr ''all'')] None)) =
          Inr (''Here are your tasks:\<newline>'' @
                    join ''\<newline>''
                      (map (\<lambda>t. (if completed t then ''Done'' else ''Todo'') @ '' #'' @ str_int (id' t) @ '': '' @ title t) (take 10 rows)
                       @ [''...and 2 more.'']))"
    unfolding b by (simp add: ne n str_int_2)
  have p: "\<exists>rows :: task list.
      list_tasks (\<lambda>t. ''T'') busy_store ''alice'' (PStr ''all'') = PList (map (\<lambda>t. PDict [(''id'', PInt (id' t)),
                                (''title'', PStr (title t)),
                                (''description'', (case description t of None \<Rightarrow> PNone | Some d \<Rightarrow> PStr d)),
                                (''completed'', PBool (completed t)),
                                (''created_at'', PStr ''T'')]) rows)
      \<and> length rows = 12
      \<and> map_sum id fst (fst (run_tool (demo_lib always_calls) busy_world ''alice'' ''list_tasks'' [(''status'', PStr ''all'')] None)) =
          Inr (''Here are your tasks:\<newline>'' @
                    join ''\<newline>''
                      (map (\<lambda>t. (if completed t then ''Done'' else ''Todo'') @ '' #'' @ str_int (id' t) @ '': '' @ title t) (take 10 rows)
                       @ [''...and 2 more.'']))"
    by (rule exI [of _ rows]) (rule conjI [OF a conjI [OF n c]])
  show ?thesis
    by (rule conjI [OF p conjI [OF demo_list_long conjI [OF demo_list demo_list_empty]]])
qed

end
